theory Spec2Isabelle
  imports Main "HOL-Library.Word"
begin

section \<open>Data model\<close>

text \<open>
  The recipe platform keeps its data in a relational store behind an object mapper.
  Identifiers are the store's auto-increment keys (Go \<open>uint\<close>); they are never
  computed with, only compared, and are modelled as natural numbers. Timestamps are
  natural numbers too. A \<open>float64\<close> is carried as its bit pattern and never
  computed with. A Go slice whose nil-ness the code tests is a list option
  (\<open>None\<close> is nil); a pointer that may be nil is an option.
\<close>

type_synonym float64 = "64 word"

type_synonym RecipeType = string

definition RecipeTypeChat :: RecipeType where
  "RecipeTypeChat = ''chat''"

definition RecipeTypeRegenChat :: RecipeType where
  "RecipeTypeRegenChat = ''regen_chat''"

definition RecipeTypeFork :: RecipeType where
  "RecipeTypeFork = ''fork''"

definition RecipeTypeManualEntry :: RecipeType where
  "RecipeTypeManualEntry = ''user_input''"

record Ingredient =
  ing_Name :: string
  ing_Unit :: string
  ing_Amount :: float64
  ing_OriginalText :: string
  ing_NormalizedAmount :: float64
  ing_NormalizedUnit :: string
  ing_IsEstimated :: bool

record RecipeDef =
  Title :: string
  Ingredients :: "Ingredient list option"
  Instructions :: "string list option"
  CookTime :: int
  ImagePrompt :: string
  Hashtags :: "string list"
  LinkedSuggestions :: "string list"
  Portions :: int
  PortionSize :: string
  SourceURL :: string

record RecipeHistoryEntry =
  he_ID :: nat
  he_CreatedAt :: nat
  he_HistoryID :: nat
  he_Prompt :: string
  he_Response :: "RecipeDef option"
  he_Summary :: string
  he_Type :: RecipeType
  he_Order :: int

record Message =
  Role :: string
  Content :: string

section \<open>Conversation context from the linear history\<close>

text \<open>
  \<open>historyEntriesToMessages\<close> of the generation service. The JSON encoder of the
  standard library is a parameter \<open>marshal\<close>; the code drops its error and uses
  whatever bytes it returned. The loop runs over the entries with their index \<open>i\<close>;
  \<open>length\<close> is the number of entries, a signed integer as in the source, so that
  \<open>length - 1\<close> is \<open>-1\<close> for no entries.
\<close>

fun historyLoop ::
  "(RecipeDef \<Rightarrow> string) \<Rightarrow> RecipeDef \<Rightarrow> int \<Rightarrow> int \<Rightarrow> RecipeHistoryEntry list
    \<Rightarrow> Message list \<Rightarrow> Message list" where
  "historyLoop marshal currentDef len i [] messages = messages"
| "historyLoop marshal currentDef len i (entry # rest) messages =
     (if he_Type entry = RecipeTypeManualEntry then
        (if i = len - 1 then
           historyLoop marshal currentDef len (i + 1) rest
             (messages @
               [\<lparr>Role = ''user'',
                  Content = ''The following response from you is the current revision of the recipe.''\<rparr>,
                \<lparr>Role = ''assistant'', Content = marshal currentDef\<rparr>])
         else historyLoop marshal currentDef len (i + 1) rest messages)
      else
        historyLoop marshal currentDef len (i + 1) rest
          (messages @
            [\<lparr>Role = ''user'', Content = he_Prompt entry\<rparr>,
             \<lparr>Role = ''assistant'',
                Content = (if i = len - 1 then marshal currentDef else he_Summary entry)\<rparr>]))"

definition historyEntriesToMessages ::
  "(RecipeDef \<Rightarrow> string) \<Rightarrow> RecipeHistoryEntry list \<Rightarrow> RecipeDef \<Rightarrow> Message list" where
  "historyEntriesToMessages marshal entries currentDef =
     historyLoop marshal currentDef (int (length entries)) 0 entries []"

text \<open>What an entry that is not the last one contributes, and what the last one does.\<close>

definition earlierTurn :: "RecipeHistoryEntry \<Rightarrow> Message list" where
  "earlierTurn e =
     (if he_Type e = RecipeTypeManualEntry then []
      else [\<lparr>Role = ''user'', Content = he_Prompt e\<rparr>,
            \<lparr>Role = ''assistant'', Content = he_Summary e\<rparr>])"

definition lastTurn :: "(RecipeDef \<Rightarrow> string) \<Rightarrow> RecipeDef \<Rightarrow> RecipeHistoryEntry \<Rightarrow> Message list" where
  "lastTurn marshal currentDef e =
     [\<lparr>Role = ''user'',
        Content = (if he_Type e = RecipeTypeManualEntry
                   then ''The following response from you is the current revision of the recipe.''
                   else he_Prompt e)\<rparr>,
      \<lparr>Role = ''assistant'', Content = marshal currentDef\<rparr>]"

text \<open>Example inputs: a manual-entry turn, a chat turn, and an encoder.\<close>

definition exDef :: RecipeDef where
  "exDef = \<lparr>Title = ''Soup'', Ingredients = Some [], Instructions = Some [''Boil''],
     CookTime = 10, ImagePrompt = ''a soup'', Hashtags = [], LinkedSuggestions = [],
     Portions = 2, PortionSize = ''bowl'', SourceURL = []\<rparr>"

definition exManual :: RecipeHistoryEntry where
  "exManual = \<lparr>he_ID = 1, he_CreatedAt = 1, he_HistoryID = 1, he_Prompt = ''typed by hand'',
     he_Response = Some exDef, he_Summary = ''manual edit'', he_Type = RecipeTypeManualEntry,
     he_Order = 0\<rparr>"

definition exChat :: RecipeHistoryEntry where
  "exChat = \<lparr>he_ID = 2, he_CreatedAt = 2, he_HistoryID = 1, he_Prompt = ''more salt'',
     he_Response = Some exDef, he_Summary = ''salted'', he_Type = RecipeTypeChat,
     he_Order = 0\<rparr>"

definition exMarshal :: "RecipeDef \<Rightarrow> string" where
  "exMarshal d = ''{title:'' @ Title d @ ''}''"

section \<open>The relational store\<close>

text \<open>
  The tables the edit tree and the generation flows use, each a list of rows in the
  order of insertion. Every insert takes the next value of the table's sequence as the
  primary key and the store's clock as \<open>created_at\<close>; the clock advances with every
  insert. \<open>stmt_log\<close> lists the statements committed so far, oldest first. A
  statement fails only for a reason visible in the data or the schema: a row that is not
  there, the unique index on \<open>recipe_trees.recipe_id\<close> that the model declares
  (\<open>unique_tree_recipe\<close> says whether the schema in force has it), or a column the
  statement names and the table does not have (\<open>core_columns\<close>, explained with the
  core-field update below). Foreign keys and lost connections are outside the model. A
  transaction that returns an error is rolled back: the function returns \<open>Inl\<close> and
  the caller keeps the store it had.
\<close>

datatype error =
    ErrRecordNotFound
  | UniqueViolation string
  | NotFoundError string
  | ErrorString string
  | Wrap string error
  | NilPointerDereference
  | UndefinedColumn string

record RecipeNode =
  n_ID :: nat
  n_CreatedAt :: nat
  n_TreeID :: nat
  n_ParentID :: "nat option"
  n_Prompt :: string
  n_Response :: "RecipeDef option"
  n_Summary :: string
  n_Type :: RecipeType
  n_BranchName :: string
  n_IsEphemeral :: bool
  n_CreatedByID :: nat
  n_IsActive :: bool

record RecipeTree =
  t_ID :: nat
  t_RecipeID :: nat
  t_RootNodeID :: "nat option"

record Tag =
  tag_ID :: nat
  tag_Hashtag :: string

record RecipeHistory =
  h_ID :: nat
  h_ActiveEntryID :: "nat option"

text \<open>
  A recipe row. \<open>r_Deleted\<close> is the soft-delete mark (\<open>deleted_at\<close> set): every
  query and update through the mapper skips such rows. \<open>r_History\<close> is the
  \<open>History\<close> association of a value in memory (nil unless the caller loaded it);
  it is not a column. \<open>r_Def\<close> is the recipe definition as the mapper stores and
  reads it: \<open>RecipeDef\<close> has a \<open>Value\<close> and a \<open>Scan\<close> method, so the mapper
  keeps it in the single column \<open>recipe_def\<close>. \<open>r_Hashtags\<close> are the tag ids of
  the join table, which is keyed by recipe and tag: a set.
\<close>

record Recipe =
  r_ID :: nat
  r_Deleted :: bool
  r_Def :: RecipeDef
  r_ImageURL :: string
  r_CreatedByID :: nat
  r_HistoryID :: nat
  r_TreeID :: "nat option"
  r_Hashtags :: "nat set"
  r_History :: "RecipeHistoryEntry list option"

text \<open>
  The values that the core-field update sends, one for each key of its map: title,
  ingredients, instructions, cook time, linked suggestions, image prompt.
\<close>

record CoreFields =
  cf_Title :: string
  cf_Ingredients :: "Ingredient list option"
  cf_Instructions :: "string list option"
  cf_CookTime :: int
  cf_LinkedSuggestions :: "string list"
  cf_ImagePrompt :: string

definition core_fields :: "RecipeDef \<Rightarrow> CoreFields" where
  "core_fields d =
     \<lparr>cf_Title = Title d, cf_Ingredients = Ingredients d, cf_Instructions = Instructions d,
      cf_CookTime = CookTime d, cf_LinkedSuggestions = LinkedSuggestions d,
      cf_ImagePrompt = ImagePrompt d\<rparr>"

datatype stmt =
    UpdateRecipeCore nat CoreFields
  | InsertHistoryEntry nat
  | InsertTag nat
  | ReplaceRecipeTags nat
  | InsertTree nat
  | InsertNode nat
  | UpdateTreeRoot nat nat
  | UpdateRecipeTree nat nat
  | DeactivateNodes nat
  | ActivateNode nat
  | DeleteRecipeRow nat

record DB =
  recipes :: "Recipe list"
  recipe_histories :: "RecipeHistory list"
  recipe_history_entries :: "RecipeHistoryEntry list"
  tags :: "Tag list"
  recipe_trees :: "RecipeTree list"
  recipe_nodes :: "RecipeNode list"
  entry_seq :: nat
  tag_seq :: nat
  tree_seq :: nat
  node_seq :: nat
  clock :: nat
  unique_tree_recipe :: bool
  core_columns :: bool
  stmt_log :: "stmt list"

subsection \<open>Statements\<close>

definition create_tree :: "DB \<Rightarrow> RecipeTree \<Rightarrow> error + (RecipeTree \<times> DB)" where
  "create_tree db tree =
     (if unique_tree_recipe db \<and> list_ex (\<lambda>t. t_RecipeID t = t_RecipeID tree) (recipe_trees db)
      then Inl (UniqueViolation ''recipe_trees.recipe_id'')
      else let row = tree\<lparr>t_ID := tree_seq db\<rparr>
           in Inr (row, db\<lparr>recipe_trees := recipe_trees db @ [row],
                           tree_seq := Suc (tree_seq db), clock := Suc (clock db),
                           stmt_log := stmt_log db @ [InsertTree (tree_seq db)]\<rparr>))"

text \<open>
  The node model declares \<open>default:'original'\<close> for the branch name: a node inserted
  with an empty branch name gets the column default.
\<close>

definition create_node :: "DB \<Rightarrow> RecipeNode \<Rightarrow> RecipeNode \<times> DB" where
  "create_node db node =
     (let row = node\<lparr>n_ID := node_seq db, n_CreatedAt := clock db,
                      n_BranchName := (if n_BranchName node = [] then ''original''
                                       else n_BranchName node)\<rparr>
      in (row, db\<lparr>recipe_nodes := recipe_nodes db @ [row],
                    node_seq := Suc (node_seq db), clock := Suc (clock db),
                    stmt_log := stmt_log db @ [InsertNode (node_seq db)]\<rparr>))"

definition update_tree_root :: "DB \<Rightarrow> nat \<Rightarrow> nat \<Rightarrow> DB" where
  "update_tree_root db treeID nodeID =
     db\<lparr>recipe_trees :=
           map (\<lambda>t. if t_ID t = treeID then t\<lparr>t_RootNodeID := Some nodeID\<rparr> else t)
             (recipe_trees db),
         stmt_log := stmt_log db @ [UpdateTreeRoot treeID nodeID]\<rparr>"

definition update_recipe_tree_id :: "DB \<Rightarrow> nat \<Rightarrow> nat \<Rightarrow> DB" where
  "update_recipe_tree_id db recipeID treeID =
     db\<lparr>recipes :=
           map (\<lambda>r. if r_ID r = recipeID \<and> \<not> r_Deleted r then r\<lparr>r_TreeID := Some treeID\<rparr> else r)
             (recipes db),
         stmt_log := stmt_log db @ [UpdateRecipeTree recipeID treeID]\<rparr>"

definition deactivate_others :: "DB \<Rightarrow> nat \<Rightarrow> nat \<Rightarrow> DB" where
  "deactivate_others db treeID nodeID =
     db\<lparr>recipe_nodes :=
           map (\<lambda>n. if n_TreeID n = treeID \<and> n_ID n \<noteq> nodeID then n\<lparr>n_IsActive := False\<rparr> else n)
             (recipe_nodes db),
         stmt_log := stmt_log db @ [DeactivateNodes treeID]\<rparr>"

definition deactivate_all :: "DB \<Rightarrow> nat \<Rightarrow> DB" where
  "deactivate_all db treeID =
     db\<lparr>recipe_nodes :=
           map (\<lambda>n. if n_TreeID n = treeID then n\<lparr>n_IsActive := False\<rparr> else n)
             (recipe_nodes db),
         stmt_log := stmt_log db @ [DeactivateNodes treeID]\<rparr>"

definition activate_node :: "DB \<Rightarrow> nat \<Rightarrow> DB" where
  "activate_node db nodeID =
     db\<lparr>recipe_nodes :=
           map (\<lambda>n. if n_ID n = nodeID then n\<lparr>n_IsActive := True\<rparr> else n)
             (recipe_nodes db),
         stmt_log := stmt_log db @ [ActivateNode nodeID]\<rparr>"

text \<open>
  The core-field update: \<open>Updates\<close> on the recipe model with a map of the six keys
  \<open>Title\<close>, \<open>Ingredients\<close>, \<open>Instructions\<close>, \<open>CookTime\<close>,
  \<open>LinkedSuggestions\<close> and \<open>ImagePrompt\<close>. The mapper turns a key into a column of
  the model only when the key is a field of the model's schema. The recipe model has no
  such field: its \<open>RecipeDef\<close> is the single column \<open>recipe_def\<close>. So each key
  goes into the statement as a column name as written, and the statement is accepted
  only by a table that has columns of these names; \<open>core_columns\<close> says whether the
  table in force has them (the table the mapper creates from the model has not). Where
  it is accepted, the statement writes those columns and leaves \<open>recipe_def\<close>, and
  with it every field that the mapper reads back, as it was.
\<close>

definition update_recipe_core :: "DB \<Rightarrow> nat \<Rightarrow> RecipeDef \<Rightarrow> error + DB" where
  "update_recipe_core db recipeID d =
     (if core_columns db
      then Inr (db\<lparr>stmt_log := stmt_log db @ [UpdateRecipeCore recipeID (core_fields d)]\<rparr>)
      else Inl (UndefinedColumn ''recipes''))"

section \<open>Edit tree store\<close>

text \<open>The tree and node methods of the recipe repository.\<close>

definition CreateRecipeTree ::
  "DB \<Rightarrow> nat \<Rightarrow> RecipeNode \<Rightarrow> error + (RecipeTree \<times> RecipeNode \<times> DB)" where
  "CreateRecipeTree db recipeID rootNode =
     (case create_tree db \<lparr>t_ID = 0, t_RecipeID = recipeID, t_RootNodeID = None\<rparr> of
        Inl err \<Rightarrow> Inl err
      | Inr (tree, db1) \<Rightarrow>
          (let (root, db2) = create_node db1 (rootNode\<lparr>n_TreeID := t_ID tree, n_IsActive := True\<rparr>);
               db3 = update_tree_root db2 (t_ID tree) (n_ID root);
               db4 = update_recipe_tree_id db3 recipeID (t_ID tree)
           in Inr (tree\<lparr>t_RootNodeID := Some (n_ID root)\<rparr>, root, db4)))"

definition GetTreeByRecipeID :: "DB \<Rightarrow> nat \<Rightarrow> error + RecipeTree" where
  "GetTreeByRecipeID db recipeID =
     (case find (\<lambda>t. t_RecipeID t = recipeID) (recipe_trees db) of
        None \<Rightarrow> Inl ErrRecordNotFound
      | Some tree \<Rightarrow> Inr tree)"

text \<open>The tree row and its nodes, ordered by \<open>created_at\<close> ascending.\<close>

definition GetTreeWithNodes :: "DB \<Rightarrow> nat \<Rightarrow> error + (RecipeTree \<times> RecipeNode list)" where
  "GetTreeWithNodes db treeID =
     (case find (\<lambda>t. t_ID t = treeID) (recipe_trees db) of
        None \<Rightarrow> Inl ErrRecordNotFound
      | Some tree \<Rightarrow>
          Inr (tree, sort_key n_CreatedAt (filter (\<lambda>n. n_TreeID n = t_ID tree) (recipe_nodes db))))"

definition GetActiveNode :: "DB \<Rightarrow> nat \<Rightarrow> error + RecipeNode" where
  "GetActiveNode db treeID =
     (case find (\<lambda>n. n_TreeID n = treeID \<and> n_IsActive n) (recipe_nodes db) of
        None \<Rightarrow> Inl (NotFoundError ''no active node found'')
      | Some node \<Rightarrow> Inr node)"

definition GetNodeByID :: "DB \<Rightarrow> nat \<Rightarrow> error + RecipeNode" where
  "GetNodeByID db nodeID =
     (case find (\<lambda>n. n_ID n = nodeID) (recipe_nodes db) of
        None \<Rightarrow> Inl (NotFoundError ''recipe node not found'')
      | Some node \<Rightarrow> Inr node)"



definition AddNodeToTree :: "DB \<Rightarrow> RecipeNode \<Rightarrow> bool \<Rightarrow> error + (RecipeNode \<times> DB)" where
  "AddNodeToTree db node setActive =
     (let (row, db1) = create_node db node
      in if setActive then
           (let db2 = deactivate_others db1 (n_TreeID row) (n_ID row);
                db3 = activate_node db2 (n_ID row)
            in Inr (row\<lparr>n_IsActive := True\<rparr>, db3))
         else Inr (row, db1))"

definition SetActiveNode :: "DB \<Rightarrow> nat \<Rightarrow> nat \<Rightarrow> error + DB" where
  "SetActiveNode db treeID nodeID =
     (case find (\<lambda>n. n_ID n = nodeID \<and> n_TreeID n = treeID) (recipe_nodes db) of
        None \<Rightarrow> Inl (ErrorString ''node does not belong to the specified tree'')
      | Some node \<Rightarrow> Inr (activate_node (deactivate_all db treeID) nodeID))"

definition UpdateRecipeFromNode :: "DB \<Rightarrow> nat \<Rightarrow> RecipeNode \<Rightarrow> error + DB" where
  "UpdateRecipeFromNode db recipeID node =
     (case n_Response node of
        None \<Rightarrow> Inl (ErrorString ''node response is nil'')
      | Some response \<Rightarrow>
          (case update_recipe_core db recipeID response of
             Inl err \<Rightarrow> Inl err
           | Inr db1 \<Rightarrow> SetActiveNode db1 (n_TreeID node) (n_ID node)))"

section \<open>Switching the active node\<close>

text \<open>
  The two service operations that make a given node the active one. They are not
  transactions as a whole, so they return the store they leave behind together with
  the error, if any.
\<close>

definition SwitchToNode :: "DB \<Rightarrow> nat \<Rightarrow> nat \<Rightarrow> DB \<times> error option" where
  "SwitchToNode db recipeID nodeID =
     (case GetNodeByID db nodeID of
        Inl err \<Rightarrow> (db, Some (Wrap ''failed to get node'' err))
      | Inr node \<Rightarrow>
          if n_Response node = None
          then (db, Some (ErrorString ''cannot switch to node with no response''))
          else (case UpdateRecipeFromNode db recipeID node of
                  Inl err \<Rightarrow> (db, Some (Wrap ''failed to update recipe from node'' err))
                | Inr db1 \<Rightarrow> (db1, None)))"

definition RecipeTreeService_SetActiveNode :: "DB \<Rightarrow> nat \<Rightarrow> nat \<Rightarrow> DB \<times> error option" where
  "RecipeTreeService_SetActiveNode db recipeID nodeID =
     (case GetTreeByRecipeID db recipeID of
        Inl err \<Rightarrow> (db, Some (Wrap ''failed to get recipe tree'' err))
      | Inr tree \<Rightarrow>
          (case SetActiveNode db (t_ID tree) nodeID of
             Inl err \<Rightarrow> (db, Some (Wrap ''failed to set active node'' err))
           | Inr db1 \<Rightarrow>
               (case GetNodeByID db1 nodeID of
                  Inl err \<Rightarrow> (db1, Some (Wrap ''failed to get node'' err))
                | Inr node \<Rightarrow>
                    (case n_Response node of
                       None \<Rightarrow> (db1, None)
                     | Some response \<Rightarrow>
                         (case UpdateRecipeFromNode db1 recipeID node of
                            Inl err \<Rightarrow> (db1, Some (Wrap ''failed to update recipe from node'' err))
                          | Inr db2 \<Rightarrow> (db2, None))))))"

section \<open>Recipe rows, history and tags\<close>

definition GetRecipeByID :: "DB \<Rightarrow> nat \<Rightarrow> error + Recipe" where
  "GetRecipeByID db recipeID =
     (case find (\<lambda>r. r_ID r = recipeID \<and> \<not> r_Deleted r) (recipes db) of
        None \<Rightarrow> Inl (NotFoundError ''Recipe not found'')
      | Some recipe \<Rightarrow> Inr (recipe\<lparr>r_History := None\<rparr>))"

text \<open>The repository's delete: the mapper sets the soft-delete mark of the row.\<close>

definition Repo_DeleteRecipe :: "DB \<Rightarrow> nat \<Rightarrow> error + DB" where
  "Repo_DeleteRecipe db recipeID =
     Inr (db\<lparr>recipes :=
               map (\<lambda>r. if r_ID r = recipeID \<and> \<not> r_Deleted r then r\<lparr>r_Deleted := True\<rparr> else r)
                 (recipes db),
             stmt_log := stmt_log db @ [DeleteRecipeRow recipeID]\<rparr>)"

definition create_history_entry :: "DB \<Rightarrow> RecipeHistoryEntry \<Rightarrow> RecipeHistoryEntry \<times> DB" where
  "create_history_entry db entry =
     (let row = entry\<lparr>he_ID := entry_seq db, he_CreatedAt := clock db\<rparr>
      in (row, db\<lparr>recipe_history_entries := recipe_history_entries db @ [row],
                    entry_seq := Suc (entry_seq db), clock := Suc (clock db),
                    stmt_log := stmt_log db @ [InsertHistoryEntry (entry_seq db)]\<rparr>))"

text \<open>
  One transaction: the core-field update, then the check of the history id, then the
  insert of the history entry. An error of the update ends it before the check.
\<close>

definition UpdateRecipeDef :: "DB \<Rightarrow> Recipe \<Rightarrow> RecipeHistoryEntry \<Rightarrow> error + DB" where
  "UpdateRecipeDef db recipe newRecipeHistoryEntry =
     (case update_recipe_core db (r_ID recipe) (r_Def recipe) of
        Inl err \<Rightarrow> Inl err
      | Inr db1 \<Rightarrow>
          if r_HistoryID recipe = 0
          then Inl (ErrorString ''recipe history ID not set in recipe'')
          else Inr (snd (create_history_entry db1
                           (newRecipeHistoryEntry\<lparr>he_HistoryID := r_HistoryID recipe\<rparr>))))"

definition FindTagByName :: "DB \<Rightarrow> string \<Rightarrow> error + Tag" where
  "FindTagByName db tagName =
     (case find (\<lambda>t. tag_Hashtag t = tagName) (tags db) of
        None \<Rightarrow> Inl ErrRecordNotFound
      | Some tag \<Rightarrow> Inr tag)"

definition CreateTag :: "DB \<Rightarrow> Tag \<Rightarrow> error + (Tag \<times> DB)" where
  "CreateTag db tag =
     (let row = tag\<lparr>tag_ID := tag_seq db\<rparr>
      in Inr (row, db\<lparr>tags := tags db @ [row], tag_seq := Suc (tag_seq db),
                        clock := Suc (clock db),
                        stmt_log := stmt_log db @ [InsertTag (tag_seq db)]\<rparr>))"

text \<open>
  The replacement of the recipe's tags: afterwards the join table holds, for this
  recipe, one row for each tag of the list, however often the list names it.
\<close>

definition UpdateRecipeTagsAssociation :: "DB \<Rightarrow> nat \<Rightarrow> Tag list \<Rightarrow> error + DB" where
  "UpdateRecipeTagsAssociation db recipeID newTags =
     (case find (\<lambda>r. r_ID r = recipeID \<and> \<not> r_Deleted r) (recipes db) of
        None \<Rightarrow> Inl ErrRecordNotFound
      | Some recipe \<Rightarrow>
          Inr (db\<lparr>recipes :=
                    map (\<lambda>r. if r_ID r = recipeID \<and> \<not> r_Deleted r
                             then r\<lparr>r_Hashtags := set (map tag_ID newTags)\<rparr> else r)
                      (recipes db),
                  stmt_log := stmt_log db @ [ReplaceRecipeTags recipeID]\<rparr>))"

section \<open>Generation flows\<close>

text \<open>
  The text-generation collaborator is a parameter: a function from the request to a
  result or an error. The lower-casing of the standard library is the parameter
  \<open>toLower\<close>. The image sub-task, which runs beside the commit and writes only the
  image URL of the recipe, and the object storage are left out.
\<close>

record RecipeResult =
  rr_Title :: string
  rr_Ingredients :: "Ingredient list"
  rr_Instructions :: "string list option"
  rr_CookTime :: int
  rr_ImagePrompt :: string
  rr_Hashtags :: "string list"
  rr_LinkedSuggestions :: "string list"
  rr_Summary :: string
  rr_Portions :: int
  rr_PortionSize :: string
  rr_SourceURL :: string

record User =
  u_ID :: nat
  u_UnitSystemText :: string
  u_Requirements :: string

record HistoryRequest =
  rq_UserPrompt :: string
  rq_UnitSystem :: string
  rq_Requirements :: string
  rq_ExistingHistory :: "Message list"

text \<open>
  The ingredients are copied field by field into a slice made for them, which is
  never nil.
\<close>

definition recipeResultToRecipeDef :: "RecipeResult \<Rightarrow> RecipeDef" where
  "recipeResultToRecipeDef r =
     \<lparr>Title = rr_Title r, Ingredients = Some (rr_Ingredients r),
      Instructions = rr_Instructions r, CookTime = rr_CookTime r,
      ImagePrompt = rr_ImagePrompt r, Hashtags = rr_Hashtags r,
      LinkedSuggestions = rr_LinkedSuggestions r, Portions = rr_Portions r,
      PortionSize = rr_PortionSize r, SourceURL = rr_SourceURL r\<rparr>"

definition validateRecipeCoreFields :: "Recipe \<Rightarrow> error option" where
  "validateRecipeCoreFields recipe =
     (if Title (r_Def recipe) = [] \<or> Ingredients (r_Def recipe) = None \<or>
         Instructions (r_Def recipe) = None \<or> ImagePrompt (r_Def recipe) = []
      then Some (ErrorString ''missing required fields in Recipe'')
      else None)"

definition populateRecipeCoreFields ::
  "Recipe \<Rightarrow> RecipeResult \<Rightarrow> RecipeHistoryEntry \<Rightarrow> Recipe \<times> error option" where
  "populateRecipeCoreFields recipe result historyEntry =
     (let recipe1 = recipe\<lparr>r_Def := recipeResultToRecipeDef result\<rparr>
      in case r_History recipe1 of
           None \<Rightarrow> (recipe1, Some (ErrorString ''recipe history is nil''))
         | Some entries \<Rightarrow>
             (let recipe2 = recipe1\<lparr>r_History := Some (entries @ [historyEntry])\<rparr>
              in (recipe2, validateRecipeCoreFields recipe2)))"

definition cleanHashtag :: "(string \<Rightarrow> string) \<Rightarrow> string \<Rightarrow> string" where
  "cleanHashtag toLower hashtag =
     (let lowered = toLower hashtag;
          unspaced = filter (\<lambda>c. c \<noteq> CHR '' '') lowered
      in case unspaced of
           [] \<Rightarrow> []
         | c # rest \<Rightarrow> if c = CHR ''#'' then rest else unspaced)"

fun associateLoop ::
  "(string \<Rightarrow> string) \<Rightarrow> DB \<Rightarrow> string list \<Rightarrow> Tag list \<Rightarrow> DB \<times> (error + Tag list)" where
  "associateLoop toLower db [] associatedTags = (db, Inr associatedTags)"
| "associateLoop toLower db (hashtag # rest) associatedTags =
     (let cleanedHashtag = cleanHashtag toLower hashtag
      in case FindTagByName db cleanedHashtag of
           Inr existingTag \<Rightarrow> associateLoop toLower db rest (associatedTags @ [existingTag])
         | Inl err \<Rightarrow>
             if err = ErrRecordNotFound then
               (case CreateTag db \<lparr>tag_ID = 0, tag_Hashtag = cleanedHashtag\<rparr> of
                  Inl err' \<Rightarrow> (db, Inl (Wrap ''failed to create new tag'' err'))
                | Inr (newTag, db1) \<Rightarrow> associateLoop toLower db1 rest (associatedTags @ [newTag]))
             else (db, Inl (Wrap ''database error while searching for tag'' err)))"

definition AssociateTagsWithRecipe ::
  "(string \<Rightarrow> string) \<Rightarrow> DB \<Rightarrow> Recipe \<Rightarrow> string list \<Rightarrow> DB \<times> error option" where
  "AssociateTagsWithRecipe toLower db recipe hashtags =
     (case associateLoop toLower db hashtags [] of
        (db1, Inl err) \<Rightarrow> (db1, Some err)
      | (db1, Inr associatedTags) \<Rightarrow>
          (case UpdateRecipeTagsAssociation db1 (r_ID recipe) associatedTags of
             Inl err \<Rightarrow> (db1, Some (Wrap ''failed to update recipe with tags'' err))
           | Inr db2 \<Rightarrow> (db2, None)))"

text \<open>The service's delete: the row first, then the image blob (not modelled).\<close>

definition DeleteRecipe :: "DB \<Rightarrow> nat \<Rightarrow> DB \<times> error option" where
  "DeleteRecipe db recipeID =
     (case Repo_DeleteRecipe db recipeID of
        Inl err \<Rightarrow> (db, Some (Wrap ''failed to delete recipe'' err))
      | Inr db1 \<Rightarrow> (db1, None))"

text \<open>
  The history entry that both text sub-tasks build from the prompt and the generated
  result, the node that a regeneration adds below the active node, and the root node
  of a fork's tree.
\<close>

definition newHistoryEntry :: "string \<Rightarrow> RecipeResult \<Rightarrow> RecipeHistoryEntry" where
  "newHistoryEntry userPrompt result =
     \<lparr>he_ID = 0, he_CreatedAt = 0, he_HistoryID = 0,
      he_Prompt = userPrompt, he_Response = Some (recipeResultToRecipeDef result),
      he_Summary = rr_Summary result, he_Type = RecipeTypeChat, he_Order = 0\<rparr>"

definition regenNewNode ::
  "RecipeTree \<Rightarrow> RecipeNode \<Rightarrow> Recipe \<Rightarrow> string \<Rightarrow> RecipeResult \<Rightarrow> RecipeNode" where
  "regenNewNode tree activeNode recipe userPrompt result =
     \<lparr>n_ID = 0, n_CreatedAt = 0, n_TreeID = t_ID tree,
      n_ParentID = Some (n_ID activeNode), n_Prompt = userPrompt,
      n_Response = Some (recipeResultToRecipeDef result), n_Summary = rr_Summary result,
      n_Type = RecipeTypeRegenChat, n_BranchName = n_BranchName activeNode,
      n_IsEphemeral = False, n_CreatedByID = r_CreatedByID recipe, n_IsActive = False\<rparr>"

definition forkRootNode :: "Recipe \<Rightarrow> string \<Rightarrow> RecipeResult \<Rightarrow> RecipeNode" where
  "forkRootNode recipe userPrompt result =
     \<lparr>n_ID = 0, n_CreatedAt = 0, n_TreeID = 0, n_ParentID = None,
      n_Prompt = userPrompt, n_Response = Some (recipeResultToRecipeDef result),
      n_Summary = rr_Summary result, n_Type = RecipeTypeFork,
      n_BranchName = ''original'', n_IsEphemeral = False,
      n_CreatedByID = r_CreatedByID recipe, n_IsActive = True\<rparr>"

text \<open>
  The text sub-task of \<open>FinishRegenerateRecipe\<close>: it returns the store it leaves and
  the value it sends on the error channel. The result of the hashtag association and
  of the tree write is only logged.
\<close>

definition regenerateTextTask ::
  "(string \<Rightarrow> string) \<Rightarrow> (HistoryRequest \<Rightarrow> error + RecipeResult) \<Rightarrow> DB \<Rightarrow> Recipe
    \<Rightarrow> HistoryRequest \<Rightarrow> DB \<times> error option" where
  "regenerateTextTask toLower RegenerateRecipe db recipe req =
     (case RegenerateRecipe req of
        Inl err \<Rightarrow> (db, Some err)
      | Inr result \<Rightarrow>
          (let historyEntry = newHistoryEntry (rq_UserPrompt req) result
           in case populateRecipeCoreFields recipe result historyEntry of
                (recipe1, Some err) \<Rightarrow> (db, Some err)
              | (recipe1, None) \<Rightarrow>
                  (case UpdateRecipeDef db recipe1 historyEntry of
                     Inl err \<Rightarrow> (db, Some err)
                   | Inr db1 \<Rightarrow>
                       (let db2 = fst (AssociateTagsWithRecipe toLower db1 recipe1 (rr_Hashtags result));
                            db3 =
                              (case GetTreeByRecipeID db2 (r_ID recipe1) of
                                 Inl treeErr \<Rightarrow> db2
                               | Inr tree \<Rightarrow>
                                   (case GetActiveNode db2 (t_ID tree) of
                                      Inl nodeErr \<Rightarrow> db2
                                    | Inr activeNode \<Rightarrow>
                                        (case AddNodeToTree db2
                                           (regenNewNode tree activeNode recipe1
                                              (rq_UserPrompt req) result) True of
                                           Inl addErr \<Rightarrow> db2
                                         | Inr (newNode, db') \<Rightarrow> db')))
                        in (db3, None)))))"

text \<open>
  What the parent task's \<open>select\<close> sees first: the text sub-task's message, or the
  five-minute deadline while the text is still being generated (the sub-task has then
  written nothing).
\<close>

datatype wait = TextTaskDone | DeadlineExpired

definition regenerateRequest ::
  "(RecipeDef \<Rightarrow> string) \<Rightarrow> Recipe \<Rightarrow> User \<Rightarrow> string \<Rightarrow> HistoryRequest" where
  "regenerateRequest marshal recipe user userPrompt =
     \<lparr>rq_UserPrompt = userPrompt, rq_UnitSystem = u_UnitSystemText user,
      rq_Requirements = u_Requirements user,
      rq_ExistingHistory =
        (case r_History recipe of
           None \<Rightarrow> []
         | Some entries \<Rightarrow> historyEntriesToMessages marshal entries (r_Def recipe))\<rparr>"

definition FinishRegenerateRecipe ::
  "(RecipeDef \<Rightarrow> string) \<Rightarrow> (string \<Rightarrow> string) \<Rightarrow> (HistoryRequest \<Rightarrow> error + RecipeResult)
    \<Rightarrow> DB \<Rightarrow> Recipe \<Rightarrow> User \<Rightarrow> string \<Rightarrow> wait \<Rightarrow> DB" where
  "FinishRegenerateRecipe marshal toLower RegenerateRecipe db recipe user userPrompt first =
     (let req = regenerateRequest marshal recipe user userPrompt
      in case first of
           DeadlineExpired \<Rightarrow> fst (DeleteRecipe db (r_ID recipe))
         | TextTaskDone \<Rightarrow>
             (case regenerateTextTask toLower RegenerateRecipe db recipe req of
                (db1, Some err) \<Rightarrow> fst (DeleteRecipe db1 (r_ID recipe))
              | (db1, None) \<Rightarrow> db1))"

text \<open>The text sub-task of \<open>FinishGenerateRecipeWithFork\<close>.\<close>

definition forkTextTask ::
  "(string \<Rightarrow> string) \<Rightarrow> (HistoryRequest \<Rightarrow> error + RecipeResult) \<Rightarrow> DB \<Rightarrow> Recipe
    \<Rightarrow> HistoryRequest \<Rightarrow> DB \<times> error option" where
  "forkTextTask toLower ForkRecipe db recipe req =
     (case ForkRecipe req of
        Inl err \<Rightarrow> (db, Some err)
      | Inr result \<Rightarrow>
          (let historyEntry = newHistoryEntry (rq_UserPrompt req) result
           in case populateRecipeCoreFields recipe result historyEntry of
                (recipe1, Some err) \<Rightarrow> (db, Some err)
              | (recipe1, None) \<Rightarrow>
                  (case UpdateRecipeDef db recipe1 historyEntry of
                     Inl err \<Rightarrow> (db, Some err)
                   | Inr db1 \<Rightarrow>
                       (let db2 = fst (AssociateTagsWithRecipe toLower db1 recipe1 (rr_Hashtags result));
                            db3 =
                              (case CreateRecipeTree db2 (r_ID recipe1)
                                 (forkRootNode recipe1 (rq_UserPrompt req) result) of
                                 Inl err \<Rightarrow> db2
                               | Inr (tree, root, db') \<Rightarrow> db')
                        in (db3, None)))))"

text \<open>
  The fork flow reads the entries through the \<open>History\<close> pointer without a nil
  check.
\<close>

definition forkRequest ::
  "(RecipeDef \<Rightarrow> string) \<Rightarrow> RecipeHistoryEntry list \<Rightarrow> Recipe \<Rightarrow> User \<Rightarrow> string
    \<Rightarrow> HistoryRequest" where
  "forkRequest marshal entries recipe user userPrompt =
     \<lparr>rq_UserPrompt = userPrompt, rq_UnitSystem = u_UnitSystemText user,
      rq_Requirements = u_Requirements user,
      rq_ExistingHistory = historyEntriesToMessages marshal entries (r_Def recipe)\<rparr>"

definition FinishGenerateRecipeWithFork ::
  "(RecipeDef \<Rightarrow> string) \<Rightarrow> (string \<Rightarrow> string) \<Rightarrow> (HistoryRequest \<Rightarrow> error + RecipeResult)
    \<Rightarrow> DB \<Rightarrow> Recipe \<Rightarrow> User \<Rightarrow> string \<Rightarrow> wait \<Rightarrow> error + DB" where
  "FinishGenerateRecipeWithFork marshal toLower ForkRecipe db recipe user userPrompt first =
     (case r_History recipe of
        None \<Rightarrow> Inl NilPointerDereference
      | Some entries \<Rightarrow>
          (let req = forkRequest marshal entries recipe user userPrompt
           in case first of
                DeadlineExpired \<Rightarrow> Inr (fst (DeleteRecipe db (r_ID recipe)))
              | TextTaskDone \<Rightarrow>
                  (case forkTextTask toLower ForkRecipe db recipe req of
                     (db1, Some err) \<Rightarrow> Inr (fst (DeleteRecipe db1 (r_ID recipe)))
                   | (db1, None) \<Rightarrow> Inr db1)))"

text \<open>Whether the recipe has a row that queries see.\<close>

definition recipe_visible :: "DB \<Rightarrow> nat \<Rightarrow> bool" where
  "recipe_visible db recipeID = list_ex (\<lambda>r. r_ID r = recipeID \<and> \<not> r_Deleted r) (recipes db)"






section \<open>Reading the full tree\<close>

text \<open>
  \<open>GetTree\<close> of the tree service. A node of the nested response is its scalar
  fields and its children.
\<close>

record NodeInfo =
  ni_ID :: nat
  ni_ParentID :: "nat option"
  ni_BranchName :: string
  ni_Summary :: string
  ni_Type :: RecipeType
  ni_IsActive :: bool
  ni_IsEphemeral :: bool
  ni_CreatedByID :: nat
  ni_CreatedAt :: nat

datatype NodeResponse = NodeResponse (nr_Info: NodeInfo) (nr_Children: "NodeResponse list")

record FullTreeResponse =
  ft_TreeID :: nat
  ft_RecipeID :: nat
  ft_RootNodeID :: "nat option"
  ft_RootNode :: "NodeResponse option"

definition toNodeResponse :: "RecipeNode \<Rightarrow> NodeResponse" where
  "toNodeResponse n =
     NodeResponse
       \<lparr>ni_ID = n_ID n, ni_ParentID = n_ParentID n, ni_BranchName = n_BranchName n,
        ni_Summary = n_Summary n, ni_Type = n_Type n, ni_IsActive = n_IsActive n,
        ni_IsEphemeral = n_IsEphemeral n, ni_CreatedByID = n_CreatedByID n,
        ni_CreatedAt = n_CreatedAt n\<rparr> []"

definition buildNodeMap :: "RecipeNode list \<Rightarrow> (nat \<rightharpoonup> NodeResponse)" where
  "buildNodeMap nodes = fold (\<lambda>n m. m(n_ID n \<mapsto> toNodeResponse n)) nodes Map.empty"

text \<open>
  The first pass over the nodes finds the entry of the recorded root. It also appends
  copies of the children to their parents' entries; \<open>rebuildNode\<close> clears the
  children of every entry before it uses it, so those copies never reach the result
  and are left out here.
\<close>

definition findRootNode ::
  "RecipeTree \<Rightarrow> RecipeNode list \<Rightarrow> (nat \<rightharpoonup> NodeResponse) \<Rightarrow> NodeResponse option" where
  "findRootNode tree nodes nodeMap =
     fold (\<lambda>n rootNode. if t_RootNodeID tree = Some (n_ID n) then nodeMap (n_ID n) else rootNode)
       nodes None"

text \<open>
  The results of a loop body run on each element in turn: the first run that does not
  return (\<open>None\<close>) or fails decides the loop.
\<close>

fun collect :: "('e + 'a) option list \<Rightarrow> ('e + 'a list) option" where
  "collect [] = Some (Inr [])"
| "collect (None # rest) = None"
| "collect (Some (Inl e) # rest) = Some (Inl e)"
| "collect (Some (Inr x) # rest) =
     (case collect rest of
        None \<Rightarrow> None
      | Some (Inl e) \<Rightarrow> Some (Inl e)
      | Some (Inr xs) \<Rightarrow> Some (Inr (x # xs)))"

text \<open>
  \<open>rebuildNode\<close> recurses as deep as the parent references lead, which nothing in
  the code bounds: the model counts the depth down from \<open>fuel\<close>, and \<open>None\<close> is
  a recursion that did not end within it. A child id that is missing from the map is
  a nil pointer, which the recursion dereferences.
\<close>

fun rebuildNode ::
  "nat \<Rightarrow> NodeResponse \<Rightarrow> (nat \<rightharpoonup> NodeResponse) \<Rightarrow> RecipeNode list
    \<Rightarrow> (error + NodeResponse) option" where
  "rebuildNode 0 node nodeMap allNodes = None"
| "rebuildNode (Suc fuel) node nodeMap allNodes =
     (case collect
             (map (\<lambda>n. case nodeMap (n_ID n) of
                          None \<Rightarrow> Some (Inl NilPointerDereference)
                        | Some child \<Rightarrow> rebuildNode fuel child nodeMap allNodes)
                (filter (\<lambda>n. n_ParentID n = Some (ni_ID (nr_Info node))) allNodes)) of
        None \<Rightarrow> None
      | Some (Inl err) \<Rightarrow> Some (Inl err)
      | Some (Inr children) \<Rightarrow> Some (Inr (NodeResponse (nr_Info node) children)))"

definition GetTree :: "nat \<Rightarrow> DB \<Rightarrow> nat \<Rightarrow> (error + FullTreeResponse) option" where
  "GetTree fuel db recipeID =
     (case GetTreeByRecipeID db recipeID of
        Inl err \<Rightarrow> Some (Inl (Wrap ''failed to get recipe tree'' err))
      | Inr treeRef \<Rightarrow>
          (case GetTreeWithNodes db (t_ID treeRef) of
             Inl err \<Rightarrow> Some (Inl (Wrap ''failed to get tree nodes'' err))
           | Inr (tree, nodes) \<Rightarrow>
               (let nodeMap = buildNodeMap nodes
                in case findRootNode tree nodes nodeMap of
                     None \<Rightarrow>
                       Some (Inr \<lparr>ft_TreeID = t_ID tree, ft_RecipeID = t_RecipeID tree,
                                  ft_RootNodeID = t_RootNodeID tree, ft_RootNode = None\<rparr>)
                   | Some rootNode \<Rightarrow>
                       (case rebuildNode fuel rootNode nodeMap nodes of
                          None \<Rightarrow> None
                        | Some (Inl err) \<Rightarrow> Some (Inl err)
                        | Some (Inr root) \<Rightarrow>
                            Some (Inr \<lparr>ft_TreeID = t_ID tree, ft_RecipeID = t_RecipeID tree,
                                       ft_RootNodeID = t_RootNodeID tree,
                                       ft_RootNode = Some root\<rparr>)))))"

text \<open>Shape of a nested response: its nodes in pre-order, its depth, and whether no
  node has more than one child.\<close>

fun nr_flat :: "NodeResponse \<Rightarrow> NodeInfo list" where
  "nr_flat (NodeResponse info children) = info # concat (map nr_flat children)"

fun nr_depth :: "NodeResponse \<Rightarrow> nat" where
  "nr_depth (NodeResponse info children) = Suc (fold max (map nr_depth children) 0)"

fun nr_linear :: "NodeResponse \<Rightarrow> bool" where
  "nr_linear (NodeResponse info children) =
     (length children \<le> 1 \<and> list_all nr_linear children)"

text \<open>
  A tree built by one \<open>CreateRecipeTree\<close> and then one
  \<open>AddNodeToTree\<close> with \<open>setActive\<close> for each node of a list, each node the child
  of the node added before it.
\<close>

fun addChain :: "DB \<Rightarrow> nat \<Rightarrow> nat \<Rightarrow> RecipeNode list \<Rightarrow> error + (nat \<times> DB)" where
  "addChain db treeID parentID [] = Inr (parentID, db)"
| "addChain db treeID parentID (node # rest) =
     (case AddNodeToTree db (node\<lparr>n_TreeID := treeID, n_ParentID := Some parentID\<rparr>) True of
        Inl err \<Rightarrow> Inl err
      | Inr (row, db1) \<Rightarrow> addChain db1 treeID (n_ID row) rest)"

definition buildChain ::
  "DB \<Rightarrow> nat \<Rightarrow> RecipeNode \<Rightarrow> RecipeNode list \<Rightarrow> error + (RecipeTree \<times> nat \<times> DB)" where
  "buildChain db recipeID rootNode nodes =
     (case CreateRecipeTree db recipeID rootNode of
        Inl err \<Rightarrow> Inl err
      | Inr (tree, root, db1) \<Rightarrow>
          (case addChain db1 (t_ID tree) (n_ID root) nodes of
             Inl err \<Rightarrow> Inl err
           | Inr (lastID, db2) \<Rightarrow> Inr (tree, lastID, db2)))"

text \<open>
  Keys in use were issued by their sequences, which start at 1: recipe ids are unique,
  and every tree id, node id and tree reference of a node is below the next value of
  its sequence.
\<close>

definition keys_ok :: "DB \<Rightarrow> bool" where
  "keys_ok db \<longleftrightarrow>
     distinct (map r_ID (recipes db)) \<and> 0 < tree_seq db \<and>
     (\<forall>t \<in> set (recipe_trees db). t_ID t < tree_seq db) \<and>
     (\<forall>n \<in> set (recipe_nodes db). n_ID n < node_seq db \<and> n_TreeID n < tree_seq db)"

text \<open>
  The nodes of a tree in table order, and what it means for them to be a straight
  chain whose first node has id \<open>b\<close>: the ids count up from \<open>b\<close>, the first node
  has no parent and every other node's parent is the node before it, only the last node
  is active, and the creation times do not decrease. \<open>chainResp\<close> is the nested
  response of a chain given as its first node and the rest.
\<close>

definition tree_nodes :: "DB \<Rightarrow> nat \<Rightarrow> RecipeNode list" where
  "tree_nodes db treeID = filter (\<lambda>n. n_TreeID n = treeID) (recipe_nodes db)"

definition is_chain :: "nat \<Rightarrow> RecipeNode list \<Rightarrow> bool" where
  "is_chain b ns \<longleftrightarrow>
     ns \<noteq> [] \<and> map n_ID ns = [b ..< b + length ns] \<and>
     list_all (\<lambda>m. n_ParentID m = (if n_ID m = b then None else Some (n_ID m - 1))) ns \<and>
     map n_IsActive ns = replicate (length ns - 1) False @ [True] \<and>
     sorted (map n_CreatedAt ns)"

fun chainResp :: "RecipeNode \<Rightarrow> RecipeNode list \<Rightarrow> NodeResponse" where
  "chainResp n [] = NodeResponse (nr_Info (toNodeResponse n)) []"
| "chainResp n (m # ms) = NodeResponse (nr_Info (toNodeResponse n)) [chainResp m ms]"

section \<open>Legacy history migration\<close>

text \<open>
  The entries of a history as the migration loads them: by \<open>order\<close> ascending, then
  by \<open>created_at\<close> ascending (two stable sorts, the minor key first).
\<close>

definition history_entries :: "DB \<Rightarrow> nat \<Rightarrow> RecipeHistoryEntry list" where
  "history_entries db historyID =
     sort_key he_Order (sort_key he_CreatedAt
       (filter (\<lambda>e. he_HistoryID e = historyID) (recipe_history_entries db)))"

fun migrateNodes ::
  "DB \<Rightarrow> nat \<Rightarrow> nat \<Rightarrow> RecipeHistoryEntry list \<Rightarrow> nat option \<Rightarrow> nat \<Rightarrow> DB \<times> nat" where
  "migrateNodes db treeID createdByID [] prevNodeID lastNodeID = (db, lastNodeID)"
| "migrateNodes db treeID createdByID (entry # rest) prevNodeID lastNodeID =
     (let (node, db1) = create_node db
            \<lparr>n_ID = 0, n_CreatedAt = 0, n_TreeID = treeID, n_ParentID = prevNodeID,
             n_Prompt = he_Prompt entry, n_Response = he_Response entry,
             n_Summary = he_Summary entry, n_Type = he_Type entry,
             n_BranchName = ''original'', n_IsEphemeral = False,
             n_CreatedByID = createdByID, n_IsActive = False\<rparr>;
          db2 = (if prevNodeID = None then update_tree_root db1 treeID (n_ID node) else db1)
      in migrateNodes db2 treeID createdByID rest (Some (n_ID node)) (n_ID node))"

definition migrateRecipeToTree :: "DB \<Rightarrow> Recipe \<Rightarrow> error + DB" where
  "migrateRecipeToTree db recipe =
     (case find (\<lambda>h. h_ID h = r_HistoryID recipe) (recipe_histories db) of
        None \<Rightarrow> Inl ErrRecordNotFound
      | Some history \<Rightarrow>
          (let entries = history_entries db (h_ID history)
           in if entries = [] then Inr db
              else
                (case create_tree db \<lparr>t_ID = 0, t_RecipeID = r_ID recipe, t_RootNodeID = None\<rparr> of
                   Inl err \<Rightarrow> Inl err
                 | Inr (tree, db1) \<Rightarrow>
                     (let (db2, lastNodeID) =
                            migrateNodes db1 (t_ID tree) (r_CreatedByID recipe) entries None 0;
                          db3 = activate_node db2 lastNodeID;
                          db4 = update_recipe_tree_id db3 (r_ID recipe) (t_ID tree)
                      in Inr db4))))"

text \<open>The recipes that have a history and no tree reference, as the query selects them.\<close>

definition recipesToMigrate :: "DB \<Rightarrow> Recipe list" where
  "recipesToMigrate db =
     filter (\<lambda>r. \<not> r_Deleted r \<and> r_HistoryID r \<noteq> 0 \<and> (r_TreeID r = None \<or> r_TreeID r = Some 0))
       (recipes db)"

text \<open>A recipe whose migration fails is logged and skipped.\<close>

fun migrateAll :: "DB \<Rightarrow> Recipe list \<Rightarrow> DB" where
  "migrateAll db [] = db"
| "migrateAll db (recipe # rest) =
     (case migrateRecipeToTree db recipe of
        Inl err \<Rightarrow> migrateAll db rest
      | Inr db1 \<Rightarrow> migrateAll db1 rest)"

definition MigrateRecipeHistoryToTree :: "DB \<Rightarrow> error + DB" where
  "MigrateRecipeHistoryToTree db =
     (let recipes = recipesToMigrate db
      in if recipes = [] then Inr db else Inr (migrateAll db recipes))"

text \<open>
  A recipe the migration is meant for: selected by the query, with a history row, at
  least one entry, and no tree.
\<close>

definition has_legacy_history :: "DB \<Rightarrow> Recipe \<Rightarrow> bool" where
  "has_legacy_history db recipe \<longleftrightarrow>
     \<not> r_Deleted recipe \<and> r_HistoryID recipe \<noteq> 0 \<and>
     (r_TreeID recipe = None \<or> r_TreeID recipe = Some 0) \<and>
     list_ex (\<lambda>h. h_ID h = r_HistoryID recipe) (recipe_histories db) \<and>
     history_entries db (r_HistoryID recipe) \<noteq> [] \<and>
     \<not> list_ex (\<lambda>t. t_RecipeID t = r_ID recipe) (recipe_trees db)"

text \<open>
  The nodes that \<open>migrateNodes\<close> inserts for a list of entries, given the tree, the
  creating user, the next node id, the clock and the parent of the first node.
\<close>

fun entryNodes ::
  "nat \<Rightarrow> nat \<Rightarrow> nat \<Rightarrow> nat \<Rightarrow> nat option \<Rightarrow> RecipeHistoryEntry list \<Rightarrow> RecipeNode list" where
  "entryNodes treeID createdByID nextID time prev [] = []"
| "entryNodes treeID createdByID nextID time prev (entry # rest) =
     \<lparr>n_ID = nextID, n_CreatedAt = time, n_TreeID = treeID, n_ParentID = prev,
      n_Prompt = he_Prompt entry, n_Response = he_Response entry,
      n_Summary = he_Summary entry, n_Type = he_Type entry,
      n_BranchName = ''original'', n_IsEphemeral = False,
      n_CreatedByID = createdByID, n_IsActive = False\<rparr>
     # entryNodes treeID createdByID (Suc nextID) (Suc time) (Some nextID) rest"

text \<open>
  A recipe on which the migration does nothing in a given store: its history row is
  missing, its history has no entry, or the unique index refuses a second tree. And a
  recipe id whose visible rows all carry a tree reference.
\<close>

definition blocked :: "DB \<Rightarrow> Recipe \<Rightarrow> bool" where
  "blocked db recipe \<longleftrightarrow>
     \<not> list_ex (\<lambda>h. h_ID h = r_HistoryID recipe) (recipe_histories db) \<or>
     history_entries db (r_HistoryID recipe) = [] \<or>
     (unique_tree_recipe db \<and> list_ex (\<lambda>t. t_RecipeID t = r_ID recipe) (recipe_trees db))"

definition tree_linked :: "DB \<Rightarrow> nat \<Rightarrow> bool" where
  "tree_linked db recipeID \<longleftrightarrow>
     list_all (\<lambda>r. r_ID r = recipeID \<and> \<not> r_Deleted r \<longrightarrow>
                  r_TreeID r \<noteq> None \<and> r_TreeID r \<noteq> Some 0) (recipes db)"

text \<open>
  The store after the migration of one recipe, in terms of the store before it: one
  more tree whose root is the first new node, one new node for each entry of the
  recipe's history with the last one active, and the tree reference of the recipe's
  visible row.
\<close>

definition migration_of :: "DB \<Rightarrow> Recipe \<Rightarrow> DB \<Rightarrow> bool" where
  "migration_of db r db' \<longleftrightarrow>
     recipe_trees db' = recipe_trees db
       @ [\<lparr>t_ID = tree_seq db, t_RecipeID = r_ID r, t_RootNodeID = Some (node_seq db)\<rparr>] \<and>
     recipe_nodes db' = recipe_nodes db
       @ map (\<lambda>n. n\<lparr>n_IsActive :=
                 (n_ID n = node_seq db + length (history_entries db (r_HistoryID r)) - 1)\<rparr>)
           (entryNodes (tree_seq db) (r_CreatedByID r) (node_seq db) (Suc (clock db)) None
              (history_entries db (r_HistoryID r))) \<and>
     recipes db' = map (\<lambda>x. if r_ID x = r_ID r \<and> \<not> r_Deleted x
                            then x\<lparr>r_TreeID := Some (tree_seq db)\<rparr> else x) (recipes db) \<and>
     recipe_histories db' = recipe_histories db \<and>
     recipe_history_entries db' = recipe_history_entries db \<and>
     tree_seq db' = Suc (tree_seq db) \<and>
     node_seq db' = node_seq db + length (history_entries db (r_HistoryID r)) \<and>
     unique_tree_recipe db' = unique_tree_recipe db"

text \<open>
  The nodes of a tree are a straight chain that mirrors a list of history entries:
  the recorded root is the first node, the nodes are a chain with only the last one
  active, they carry the entries' prompts, snapshots, summaries and types in the
  entries' order, and every branch label is "original".
\<close>

definition straight_chain_of :: "DB \<Rightarrow> RecipeTree \<Rightarrow> RecipeHistoryEntry list \<Rightarrow> bool" where
  "straight_chain_of db tree es \<longleftrightarrow>
     (let ns = tree_nodes db (t_ID tree)
      in ns \<noteq> [] \<and> t_RootNodeID tree = Some (n_ID (hd ns)) \<and> is_chain (n_ID (hd ns)) ns \<and>
         map n_Prompt ns = map he_Prompt es \<and> map n_Response ns = map he_Response es \<and>
         map n_Summary ns = map he_Summary es \<and> map n_Type ns = map he_Type es \<and>
         list_all (\<lambda>n. n_BranchName n = ''original'') ns)"

definition migrated :: "DB \<Rightarrow> nat \<Rightarrow> RecipeHistoryEntry list \<Rightarrow> bool" where
  "migrated db recipeID es \<longleftrightarrow>
     (\<exists>tree. filter (\<lambda>t. t_RecipeID t = recipeID) (recipe_trees db) = [tree] \<and>
        t_ID tree < tree_seq db \<and> straight_chain_of db tree es)"

text \<open>One step of the migration loop, and a recipe the migration has dealt with.\<close>

definition migrateStep :: "DB \<Rightarrow> Recipe \<Rightarrow> DB" where
  "migrateStep db recipe =
     (case migrateRecipeToTree db recipe of Inl err \<Rightarrow> db | Inr db1 \<Rightarrow> db1)"

definition settled :: "DB \<Rightarrow> Recipe \<Rightarrow> bool" where
  "settled db recipe \<longleftrightarrow> blocked db recipe \<or> tree_linked db (r_ID recipe)"

section \<open>Well-formed trees\<close>






section \<open>Example stores\<close>

definition exRecipe :: Recipe where
  "exRecipe = \<lparr>r_ID = 1, r_Deleted = False, r_Def = exDef, r_ImageURL = [],
     r_CreatedByID = 7, r_HistoryID = 1, r_TreeID = Some 1, r_Hashtags = {},
     r_History = None\<rparr>"

definition exNode :: RecipeNode where
  "exNode = \<lparr>n_ID = 0, n_CreatedAt = 0, n_TreeID = 1, n_ParentID = Some 1,
     n_Prompt = ''more salt'', n_Response = Some exDef, n_Summary = ''salted'',
     n_Type = RecipeTypeRegenChat, n_BranchName = ''original'', n_IsEphemeral = False,
     n_CreatedByID = 7, n_IsActive = False\<rparr>"

definition exRoot :: RecipeNode where
  "exRoot = exNode\<lparr>n_ID := 1, n_CreatedAt := 5, n_ParentID := None, n_Prompt := ''soup'',
     n_Type := RecipeTypeChat, n_IsActive := True\<rparr>"

text \<open>A branch node as \<open>CreateBranch\<close> leaves it: no snapshot, not active.\<close>

definition exBranch :: RecipeNode where
  "exBranch = exNode\<lparr>n_ID := 2, n_CreatedAt := 6, n_Prompt := [], n_Response := None,
     n_Summary := [], n_Type := [], n_BranchName := ''spicy''\<rparr>"

definition exTreeDB :: DB where
  "exTreeDB = \<lparr>recipes = [exRecipe],
     recipe_histories = [\<lparr>h_ID = 1, h_ActiveEntryID = None\<rparr>],
     recipe_history_entries = [], tags = [],
     recipe_trees = [\<lparr>t_ID = 1, t_RecipeID = 1, t_RootNodeID = Some 1\<rparr>],
     recipe_nodes = [exRoot, exBranch],
     entry_seq = 1, tag_seq = 1, tree_seq = 2, node_seq = 3, clock = 10,
     unique_tree_recipe = True, core_columns = False, stmt_log = []\<rparr>"

text \<open>The same store under a schema without the unique index.\<close>

definition exNoIndexDB :: DB where
  "exNoIndexDB = exTreeDB\<lparr>unique_tree_recipe := False\<rparr>"


text \<open>A store whose only node refers to a parent that is not there.\<close>

definition exDanglingDB :: DB where
  "exDanglingDB = exTreeDB\<lparr>recipe_nodes := [exBranch\<lparr>n_ParentID := Some 9\<rparr>]\<rparr>"

text \<open>
  The recipe of the example store as a caller holds it with its history loaded, a
  generated result, a collaborator that fails and one that returns the result.
\<close>

definition exLoadedRecipe :: Recipe where
  "exLoadedRecipe = exRecipe\<lparr>r_History := Some [exChat]\<rparr>"

definition exUser :: User where
  "exUser = \<lparr>u_ID = 7, u_UnitSystemText = ''metric'', u_Requirements = ''no nuts''\<rparr>"

definition exResult :: RecipeResult where
  "exResult = \<lparr>rr_Title = ''Salty soup'', rr_Ingredients = [],
     rr_Instructions = Some [''Boil'', ''Salt''], rr_CookTime = 12,
     rr_ImagePrompt = ''a salty soup'', rr_Hashtags = [''#soup''],
     rr_LinkedSuggestions = [], rr_Summary = ''salted'', rr_Portions = 2,
     rr_PortionSize = ''bowl'', rr_SourceURL = []\<rparr>"

definition exFailingProvider :: "HistoryRequest \<Rightarrow> error + RecipeResult" where
  "exFailingProvider req = Inl (ErrorString ''upstream provider error'')"

definition exProvider :: "HistoryRequest \<Rightarrow> error + RecipeResult" where
  "exProvider req = Inr exResult"

text \<open>
  The example store under a schema whose recipes table has columns of the names that
  the core-field update uses.
\<close>

definition exColumnsDB :: DB where
  "exColumnsDB = exTreeDB\<lparr>core_columns := True\<rparr>"

definition exToLower :: "string \<Rightarrow> string" where
  "exToLower s = map (\<lambda>c. if c = CHR ''S'' then CHR ''s'' else c) s"

text \<open>A store with a freshly forked recipe: a row and a history, no tree yet.\<close>

definition exForkDB :: DB where
  "exForkDB = exTreeDB\<lparr>recipes := [exRecipe\<lparr>r_TreeID := None\<rparr>], recipe_trees := [],
     recipe_nodes := [], tree_seq := 1, node_seq := 1\<rparr>"

definition exForkRecipe :: Recipe where
  "exForkRecipe = exRecipe\<lparr>r_TreeID := None, r_History := Some []\<rparr>"

definition exForkColumnsDB :: DB where
  "exForkColumnsDB = exForkDB\<lparr>core_columns := True\<rparr>"

text \<open>
  A store before the migration: recipe 1 refers to a history that is not there,
  recipe 2 has a history of two entries, recipe 3 has an empty history.
\<close>

definition exLegacyDB :: DB where
  "exLegacyDB = \<lparr>recipes =
       [exRecipe\<lparr>r_HistoryID := 5, r_TreeID := None\<rparr>,
        exRecipe\<lparr>r_ID := 2, r_TreeID := None\<rparr>,
        exRecipe\<lparr>r_ID := 3, r_HistoryID := 2, r_TreeID := Some 0\<rparr>],
     recipe_histories = [\<lparr>h_ID = 1, h_ActiveEntryID = None\<rparr>, \<lparr>h_ID = 2, h_ActiveEntryID = None\<rparr>],
     recipe_history_entries = [exManual, exChat], tags = [],
     recipe_trees = [], recipe_nodes = [],
     entry_seq = 3, tag_seq = 1, tree_seq = 1, node_seq = 1, clock = 10,
     unique_tree_recipe = True, core_columns = False, stmt_log = []\<rparr>"

lemmas stmt_defs = create_tree_def create_node_def update_tree_root_def
  update_recipe_tree_id_def deactivate_others_def deactivate_all_def activate_node_def
  update_recipe_core_def core_fields_def

lemmas tree_store_defs = CreateRecipeTree_def GetTreeByRecipeID_def GetTreeWithNodes_def
  GetActiveNode_def GetNodeByID_def AddNodeToTree_def SetActiveNode_def
  UpdateRecipeFromNode_def

lemmas ex_defs = exDef_def exRecipe_def exNode_def exRoot_def exBranch_def exTreeDB_def
  exNoIndexDB_def exDanglingDB_def

lemmas recipe_defs = GetRecipeByID_def Repo_DeleteRecipe_def create_history_entry_def
  UpdateRecipeDef_def FindTagByName_def CreateTag_def UpdateRecipeTagsAssociation_def

lemmas flow_defs = recipeResultToRecipeDef_def validateRecipeCoreFields_def
  newHistoryEntry_def regenNewNode_def forkRootNode_def
  populateRecipeCoreFields_def cleanHashtag_def AssociateTagsWithRecipe_def DeleteRecipe_def
  regenerateTextTask_def regenerateRequest_def FinishRegenerateRecipe_def forkTextTask_def
  forkRequest_def FinishGenerateRecipeWithFork_def

lemmas ex_flow_defs = exLoadedRecipe_def exUser_def exResult_def exFailingProvider_def
  exProvider_def exToLower_def exForkDB_def exForkRecipe_def exChat_def
  exColumnsDB_def exForkColumnsDB_def

section \<open>Properties of the conversation context\<close>

lemma historyLoop_append:
  "historyLoop marshal d len i es (acc @ ms) = acc @ historyLoop marshal d len i es ms"
  by (induction es arbitrary: i ms) simp_all

lemma historyLoop_pair:
  "historyLoop marshal d len i es [x, y] = [x, y] @ historyLoop marshal d len i es []"
  using historyLoop_append [of marshal d len i es "[x, y]" "[]"] by simp

lemma historyLoop_step:
  "historyLoop marshal d len i (e # es) []
     = historyLoop marshal d len i [e] [] @ historyLoop marshal d len (i + 1) es []"
  by (simp add: historyLoop_pair)

lemma historyLoop_single:
  "historyLoop marshal d len i [e] [] =
     (if i = len - 1 then lastTurn marshal d e else earlierTurn e)"
  by (simp add: lastTurn_def earlierTurn_def)

lemma roles_lastTurn: "map Role (lastTurn marshal d e) = [''user'', ''assistant'']"
  by (simp add: lastTurn_def)

lemma roles_earlierTurn:
  "map Role (earlierTurn e) = (if he_Type e = RecipeTypeManualEntry then [] else [''user'', ''assistant''])"
  by (simp add: earlierTurn_def)

lemma historyLoop_roles:
  "\<exists>k. map Role (historyLoop marshal d len i es []) = concat (replicate k [''user'', ''assistant''])"
proof (induction es arbitrary: i)
  case Nil
  have "map Role (historyLoop marshal d len i [] []) = concat (replicate 0 [''user'', ''assistant''])"
    by simp
  then show ?case by blast
next
  case (Cons e es)
  obtain k where k: "map Role (historyLoop marshal d len (i + 1) es [])
      = concat (replicate k [''user'', ''assistant''])"
    using Cons.IH by blast
  have step: "map Role (historyLoop marshal d len i (e # es) [])
      = map Role (historyLoop marshal d len i [e] []) @ concat (replicate k [''user'', ''assistant''])"
    by (simp only: historyLoop_step [of marshal d len i e es] map_append k)
  show ?case
  proof (cases "he_Type e = RecipeTypeManualEntry \<and> i \<noteq> len - 1")
    case True
    then have "map Role (historyLoop marshal d len i [e] []) = []"
      by (simp add: historyLoop_single roles_earlierTurn del: historyLoop.simps)
    with step have "map Role (historyLoop marshal d len i (e # es) [])
        = concat (replicate k [''user'', ''assistant''])"
      by simp
    then show ?thesis by blast
  next
    case False
    then have "map Role (historyLoop marshal d len i [e] []) = [''user'', ''assistant'']"
      by (cases "i = len - 1")
        (simp_all add: historyLoop_single roles_earlierTurn roles_lastTurn del: historyLoop.simps)
    with step have "map Role (historyLoop marshal d len i (e # es) [])
        = concat (replicate (Suc k) [''user'', ''assistant''])"
      by simp
    then show ?thesis by blast
  qed
qed

lemma length_concat_pairs:
  "length (concat (replicate k [a, b])) = 2 * k"
  by (induction k) simp_all

text \<open>
  C10. For every list of history entries and every current recipe definition, the
  message list has even length and its roles are "user", "assistant", "user",
  "assistant", ... from the first message on; entries that contribute nothing do not
  disturb the alternation.
\<close>

theorem historyEntriesToMessages_alternates:
  "even (length (historyEntriesToMessages marshal entries currentDef)) \<and>
   map Role (historyEntriesToMessages marshal entries currentDef)
     = concat (replicate (length (historyEntriesToMessages marshal entries currentDef) div 2)
         [''user'', ''assistant''])"
proof -
  let ?ms = "historyEntriesToMessages marshal entries currentDef"
  obtain k where k: "map Role ?ms = concat (replicate k [''user'', ''assistant''])"
    using historyLoop_roles [of marshal currentDef "int (length entries)" 0 entries]
    by (auto simp: historyEntriesToMessages_def)
  have "length (map Role ?ms) = 2 * k"
    by (simp only: k length_concat_pairs)
  then have len: "length ?ms = 2 * k" by simp
  then have "length ?ms div 2 = k" by simp
  with k len show ?thesis by simp
qed

lemma historyLoop_earlier:
  "i + int (length es) < len \<Longrightarrow>
   historyLoop marshal d len i es [] = concat (map earlierTurn es)"
proof (induction es arbitrary: i)
  case Nil
  then show ?case by simp
next
  case (Cons e es)
  then have ne: "i \<noteq> len - 1" and rest: "(i + 1) + int (length es) < len"
    by simp_all
  have IH: "historyLoop marshal d len (i + 1) es [] = concat (map earlierTurn es)"
    using Cons.IH [OF rest] .
  have "historyLoop marshal d len i [e] [] = earlierTurn e"
    using ne by (simp add: historyLoop_single del: historyLoop.simps)
  then show ?case
    by (simp only: historyLoop_step [of marshal d len i e es] IH list.map concat.simps)
qed

lemma historyLoop_split:
  "historyLoop marshal d len i (es @ fs) []
     = historyLoop marshal d len i es [] @ historyLoop marshal d len (i + int (length es)) fs []"
proof (induction es arbitrary: i)
  case Nil
  then show ?case by simp
next
  case (Cons e es)
  have eq: "i + 1 + int (length es) = i + int (length (e # es))" by simp
  have "historyLoop marshal d len i ((e # es) @ fs) []
      = historyLoop marshal d len i [e] [] @ historyLoop marshal d len (i + 1) (es @ fs) []"
    by (simp only: append_Cons historyLoop_step [of marshal d len i e "es @ fs"])
  also have "\<dots> = historyLoop marshal d len i [e] []
      @ (historyLoop marshal d len (i + 1) es []
         @ historyLoop marshal d len (i + int (length (e # es))) fs [])"
    by (simp only: Cons.IH [of "i + 1"] eq)
  also have "\<dots> = historyLoop marshal d len i (e # es) []
      @ historyLoop marshal d len (i + int (length (e # es))) fs []"
    by (simp only: historyLoop_step [of marshal d len i e es] append_assoc)
  finally show ?case .
qed

text \<open>
  C4, as the code has it. For a non-empty history \<open>es @ [l]\<close> the context is: for
  each earlier turn that is not a manual entry, its prompt and its stored summary; no
  message at all for an earlier manual-entry turn; and for the last turn its prompt,
  or the synthetic text when it is a manual entry, followed by the JSON of the current
  recipe definition.
\<close>

theorem historyEntriesToMessages_turns:
  "historyEntriesToMessages marshal (es @ [l]) currentDef
     = concat (map earlierTurn es) @ lastTurn marshal currentDef l"
proof -
  let ?len = "int (length (es @ [l]))"
  have early: "historyLoop marshal currentDef ?len 0 es [] = concat (map earlierTurn es)"
    by (rule historyLoop_earlier) simp
  have final: "historyLoop marshal currentDef ?len (0 + int (length es)) [l] []
      = lastTurn marshal currentDef l"
    by (simp add: historyLoop_single del: historyLoop.simps)
  show ?thesis
    unfolding historyEntriesToMessages_def
    by (simp only: historyLoop_split early final)
qed

text \<open>
  C4, as stated, fails: with a manual-entry turn followed by a chat turn, the two turns
  give one message pair, not two, and the manual turn has no synthetic message; and a
  manual-entry turn that is the most recent one does get the synthetic message.
\<close>

theorem historyEntriesToMessages_manual_counterexample:
  "historyEntriesToMessages exMarshal [exManual, exChat] exDef
     = [\<lparr>Role = ''user'', Content = ''more salt''\<rparr>,
        \<lparr>Role = ''assistant'', Content = ''{title:Soup}''\<rparr>]
   \<and> length (historyEntriesToMessages exMarshal [exManual, exChat] exDef)
       \<noteq> 2 * length [exManual, exChat]
   \<and> historyEntriesToMessages exMarshal [exManual] exDef
     = [\<lparr>Role = ''user'',
          Content = ''The following response from you is the current revision of the recipe.''\<rparr>,
        \<lparr>Role = ''assistant'', Content = ''{title:Soup}''\<rparr>]"
  by (simp add: historyEntriesToMessages_def exManual_def exChat_def exDef_def exMarshal_def
      RecipeTypeManualEntry_def RecipeTypeChat_def)

section \<open>Properties of the edit tree store\<close>

lemma filter_eq_single:
  "distinct xs \<Longrightarrow> k \<in> set xs \<Longrightarrow> filter (\<lambda>i. i = k) xs = [k]"
proof (induction xs)
  case Nil
  then show ?case by simp
next
  case (Cons x xs)
  show ?case
  proof (cases "x = k")
    case True
    with Cons.prems have "k \<notin> set xs" by simp
    then have "filter (\<lambda>i. i = k) xs = []" by (auto simp: filter_empty_conv)
    with True show ?thesis by simp
  next
    case False
    with Cons show ?thesis by simp
  qed
qed


lemma AddNodeToTree_active:
  assumes fresh: "\<forall>n \<in> set (recipe_nodes db). n_ID n < node_seq db"
    and add: "AddNodeToTree db node True = Inr (row, db')"
  shows "filter (\<lambda>n. n_TreeID n = n_TreeID node \<and> n_IsActive n) (recipe_nodes db') = [row]"
    and "n_ID row = node_seq db"
proof -
  let ?new = "node\<lparr>n_ID := node_seq db, n_CreatedAt := clock db,
      n_BranchName := (if n_BranchName node = [] then ''original'' else n_BranchName node)\<rparr>"
  let ?g = "\<lambda>n. if n_ID n = node_seq db then n\<lparr>n_IsActive := True\<rparr> else n"
  let ?f = "\<lambda>n. if n_TreeID n = n_TreeID node \<and> n_ID n \<noteq> node_seq db
      then n\<lparr>n_IsActive := False\<rparr> else n"
  from add have row: "row = ?new\<lparr>n_IsActive := True\<rparr>"
    and nodes: "recipe_nodes db' = map ?g (map ?f (recipe_nodes db @ [?new]))"
    by (auto simp: AddNodeToTree_def stmt_defs Let_def)
  have old: "filter (\<lambda>n. n_TreeID n = n_TreeID node \<and> n_IsActive n)
      (map ?g (map ?f (recipe_nodes db))) = []"
    using fresh by (auto simp: filter_empty_conv)
  show "filter (\<lambda>n. n_TreeID n = n_TreeID node \<and> n_IsActive n) (recipe_nodes db') = [row]"
    using old by (simp add: nodes row)
  show "n_ID row = node_seq db"
    by (simp add: row)
qed

lemma SetActiveNode_active:
  assumes dist: "distinct (map n_ID (recipe_nodes db))"
    and set: "SetActiveNode db treeID nodeID = Inr db'"
  shows "map n_ID (filter (\<lambda>n. n_TreeID n = treeID \<and> n_IsActive n) (recipe_nodes db')) = [nodeID]"
proof -
  let ?g = "\<lambda>n. if n_ID n = nodeID then n\<lparr>n_IsActive := True\<rparr> else n"
  let ?f = "\<lambda>n. if n_TreeID n = treeID then n\<lparr>n_IsActive := False\<rparr> else n"
  let ?P = "\<lambda>n. n_TreeID n = treeID \<and> n_IsActive n"
  from set obtain node where
    found: "find (\<lambda>n. n_ID n = nodeID \<and> n_TreeID n = treeID) (recipe_nodes db) = Some node"
    and nodes: "recipe_nodes db' = map ?g (map ?f (recipe_nodes db))"
    by (auto simp: SetActiveNode_def stmt_defs split: option.splits)
  from found have node: "node \<in> set (recipe_nodes db)" "n_ID node = nodeID" "n_TreeID node = treeID"
    by (auto simp: find_Some_iff)
  have only: "n_TreeID n = treeID" if "n \<in> set (recipe_nodes db)" "n_ID n = nodeID" for n
  proof -
    from dist that node have "n = node"
      by (metis distinct_map inj_onD)
    with node show ?thesis by simp
  qed
  have "filter ?P (map ?g (map ?f (recipe_nodes db)))
      = map ?g (map ?f (filter (\<lambda>n. n_ID n = nodeID) (recipe_nodes db)))"
    by (simp add: filter_map comp_def) (rule arg_cong, rule arg_cong, rule filter_cong, auto dest: only)
  then have "map n_ID (filter ?P (recipe_nodes db'))
      = map n_ID (filter (\<lambda>n. n_ID n = nodeID) (recipe_nodes db))"
    by (simp add: nodes comp_def)
  also have "\<dots> = filter (\<lambda>i. i = nodeID) (map n_ID (recipe_nodes db))"
    by (simp add: filter_map comp_def)
  also have "\<dots> = [nodeID]"
    using dist node by (intro filter_eq_single) auto
  finally show ?thesis .
qed

text \<open>
  C1. In a store whose node ids are unique and below the sequence's next value (the
  primary key), a completed \<open>AddNodeToTree\<close> with \<open>setActive\<close> leaves exactly one
  active node in the new node's tree: the new node; and a completed
  \<open>SetActiveNode\<close> leaves exactly one active node in that tree: the node it was
  given. Nothing is assumed about how many nodes were active before.
\<close>

theorem one_active_node:
  "((\<forall>n \<in> set (recipe_nodes db). n_ID n < node_seq db) \<and>
      AddNodeToTree db node True = Inr (row, db')
    \<longrightarrow> filter (\<lambda>n. n_TreeID n = n_TreeID node \<and> n_IsActive n) (recipe_nodes db') = [row]
        \<and> n_ID row = node_seq db) \<and>
   (distinct (map n_ID (recipe_nodes db2)) \<and> SetActiveNode db2 treeID nodeID = Inr db2'
    \<longrightarrow> map n_ID (filter (\<lambda>n. n_TreeID n = treeID \<and> n_IsActive n) (recipe_nodes db2'))
          = [nodeID])"
  using AddNodeToTree_active [of db node row db'] SetActiveNode_active [of db2 treeID nodeID db2']
  by blast

text \<open>
  Two nodes of the example tree are made active at once, then a node is added and
  the root is set active again: each time one active node remains.
\<close>

theorem one_active_node_witness:
  "(case AddNodeToTree (activate_node exTreeDB 2) exNode True of
      Inl err \<Rightarrow> False
    | Inr (row, db') \<Rightarrow>
        map n_ID (filter (\<lambda>n. n_IsActive n) (recipe_nodes (activate_node exTreeDB 2))) = [1, 2]
        \<and> map n_ID (filter (\<lambda>n. n_TreeID n = 1 \<and> n_IsActive n) (recipe_nodes db')) = [3]) \<and>
   (case SetActiveNode (activate_node exTreeDB 2) 1 1 of
      Inl err \<Rightarrow> False
    | Inr db2' \<Rightarrow>
        map n_ID (filter (\<lambda>n. n_TreeID n = 1 \<and> n_IsActive n) (recipe_nodes db2')) = [1])"
proof -
  let ?db = "activate_node exTreeDB 2"
  obtain row db' where add: "AddNodeToTree ?db exNode True = Inr (row, db')"
    by (simp add: AddNodeToTree_def stmt_defs Let_def)
  obtain db2' where set: "SetActiveNode ?db 1 1 = Inr db2'"
    by (simp add: SetActiveNode_def stmt_defs ex_defs)
  have fresh: "\<forall>n \<in> set (recipe_nodes ?db). n_ID n < node_seq ?db"
    by (simp add: stmt_defs ex_defs)
  have dist: "distinct (map n_ID (recipe_nodes ?db))"
    by (simp add: stmt_defs ex_defs)
  have before: "map n_ID (filter (\<lambda>n. n_IsActive n) (recipe_nodes ?db)) = [1, 2]"
    by (simp add: stmt_defs ex_defs)
  have tree: "n_TreeID exNode = 1" and seq: "node_seq ?db = 3"
    by (simp_all add: stmt_defs ex_defs)
  from one_active_node [of ?db exNode row db' ?db 1 1 db2'] fresh add dist set
  have "filter (\<lambda>n. n_TreeID n = n_TreeID exNode \<and> n_IsActive n) (recipe_nodes db') = [row]"
    and "n_ID row = node_seq ?db"
    and "map n_ID (filter (\<lambda>n. n_TreeID n = 1 \<and> n_IsActive n) (recipe_nodes db2')) = [1]"
    by blast+
  then show ?thesis
    unfolding add set using before by (simp add: tree seq)
qed

text \<open>
  C6, as the code has it. Under a schema with the unique index on the tree's recipe
  reference, \<open>CreateRecipeTree\<close> for a recipe that already has a tree fails with the
  store's error on the first insert; the transaction is rolled back, so neither a tree
  nor a node is persisted.
\<close>

theorem CreateRecipeTree_second_tree_refused:
  "unique_tree_recipe db \<and> list_ex (\<lambda>t. t_RecipeID t = recipeID) (recipe_trees db)
   \<longrightarrow> CreateRecipeTree db recipeID rootNode = Inl (UniqueViolation ''recipe_trees.recipe_id'')"
  by (simp add: CreateRecipeTree_def create_tree_def)

theorem CreateRecipeTree_second_tree_refused_witness:
  "CreateRecipeTree exTreeDB 1 exNode = Inl (UniqueViolation ''recipe_trees.recipe_id'')"
proof -
  have "unique_tree_recipe exTreeDB \<and> list_ex (\<lambda>t. t_RecipeID t = 1) (recipe_trees exTreeDB)"
    by (simp add: ex_defs)
  with CreateRecipeTree_second_tree_refused [of exTreeDB 1 exNode] show ?thesis
    by blast
qed

text \<open>
  C6, as stated, fails: the store layer makes no check of its own. Without the unique
  index, \<open>CreateRecipeTree\<close> for recipe 1, which has a tree, succeeds and persists a
  second tree and a second root node.
\<close>

theorem CreateRecipeTree_no_own_check_counterexample:
  "list_ex (\<lambda>t. t_RecipeID t = 1) (recipe_trees exNoIndexDB) \<and>
   (case CreateRecipeTree exNoIndexDB 1 exNode of
      Inl err \<Rightarrow> False
    | Inr (tree, root, db') \<Rightarrow>
        map t_RecipeID (recipe_trees db') = [1, 1] \<and> map t_ID (recipe_trees db') = [1, 2] \<and>
        map n_ID (recipe_nodes db') = [1, 2, 3] \<and> map n_TreeID (recipe_nodes db') = [1, 1, 2])"
  by (simp add: CreateRecipeTree_def stmt_defs ex_defs Let_def)

lemma find_map_same:
  "(\<And>x. P (g x) = P x) \<Longrightarrow> find P (map g xs) = map_option g (find P xs)"
  by (induction xs) simp_all

lemma find_refine:
  "find P xs = Some x \<Longrightarrow> Q x \<Longrightarrow> find (\<lambda>y. P y \<and> Q y) xs = Some x"
  by (induction xs) (auto split: if_splits)

lemma TreeService_SetActiveNode_empty:
  assumes get: "GetNodeByID db nodeID = Inr node"
    and empty: "n_Response node = None"
    and tree: "GetTreeByRecipeID db recipeID = Inr tree"
    and same: "n_TreeID node = t_ID tree"
  shows "RecipeTreeService_SetActiveNode db recipeID nodeID
      = (activate_node (deactivate_all db (t_ID tree)) nodeID, None)"
proof -
  let ?g = "\<lambda>n. if n_ID n = nodeID then n\<lparr>n_IsActive := True\<rparr> else n"
  let ?f = "\<lambda>n. if n_TreeID n = t_ID tree then n\<lparr>n_IsActive := False\<rparr> else n"
  let ?db1 = "activate_node (deactivate_all db (t_ID tree)) nodeID"
  from get have found: "find (\<lambda>n. n_ID n = nodeID) (recipe_nodes db) = Some node"
    by (simp add: GetNodeByID_def split: option.splits)
  from find_refine [OF found, of "\<lambda>n. n_TreeID n = t_ID tree"] same
  have "find (\<lambda>n. n_ID n = nodeID \<and> n_TreeID n = t_ID tree) (recipe_nodes db) = Some node"
    by simp
  then have set: "SetActiveNode db (t_ID tree) nodeID = Inr ?db1"
    by (simp add: SetActiveNode_def)
  have nodes: "recipe_nodes ?db1 = map (?g \<circ> ?f) (recipe_nodes db)"
    by (simp add: stmt_defs)
  have "find (\<lambda>n. n_ID n = nodeID) (recipe_nodes ?db1)
      = map_option (?g \<circ> ?f) (find (\<lambda>n. n_ID n = nodeID) (recipe_nodes db))"
    unfolding nodes by (rule find_map_same) simp
  then obtain node1 where get1: "GetNodeByID ?db1 nodeID = Inr node1"
    and node1: "node1 = (?g \<circ> ?f) node"
    by (simp add: GetNodeByID_def found)
  have resp: "n_Response node1 = None"
    using empty by (simp add: node1)
  show ?thesis
    by (simp add: RecipeTreeService_SetActiveNode_def tree set get1 resp)
qed

lemma TreeService_SetActiveNode_recipes:
  assumes get: "GetNodeByID db nodeID = Inr node" and empty: "n_Response node = None"
  shows "recipes (fst (RecipeTreeService_SetActiveNode db recipeID nodeID)) = recipes db"
proof (cases "GetTreeByRecipeID db recipeID")
  case (Inl err)
  then show ?thesis by (simp add: RecipeTreeService_SetActiveNode_def)
next
  case (Inr tree)
  let ?g = "\<lambda>n. if n_ID n = nodeID then n\<lparr>n_IsActive := True\<rparr> else n"
  let ?f = "\<lambda>n. if n_TreeID n = t_ID tree then n\<lparr>n_IsActive := False\<rparr> else n"
  let ?db1 = "activate_node (deactivate_all db (t_ID tree)) nodeID"
  from get have found: "find (\<lambda>n. n_ID n = nodeID) (recipe_nodes db) = Some node"
    by (simp add: GetNodeByID_def split: option.splits)
  show ?thesis
  proof (cases "SetActiveNode db (t_ID tree) nodeID")
    case (Inl err)
    with Inr show ?thesis by (simp add: RecipeTreeService_SetActiveNode_def)
  next
    case set: (Inr db1)
    then have db1: "db1 = ?db1"
      by (simp add: SetActiveNode_def split: option.splits)
    have nodes: "recipe_nodes ?db1 = map (?g \<circ> ?f) (recipe_nodes db)"
      by (simp add: stmt_defs)
    have "find (\<lambda>n. n_ID n = nodeID) (recipe_nodes ?db1)
        = map_option (?g \<circ> ?f) (find (\<lambda>n. n_ID n = nodeID) (recipe_nodes db))"
      unfolding nodes by (rule find_map_same) simp
    then obtain node1 where get1: "GetNodeByID db1 nodeID = Inr node1"
      and node1: "node1 = (?g \<circ> ?f) node"
      by (simp add: GetNodeByID_def found db1)
    have resp: "n_Response node1 = None"
      using empty by (simp add: node1)
    have "RecipeTreeService_SetActiveNode db recipeID nodeID = (db1, None)"
      by (simp add: RecipeTreeService_SetActiveNode_def Inr set get1 resp)
    then show ?thesis
      by (simp add: db1 stmt_defs)
  qed
qed

text \<open>
  C7, as the code has it. For a node whose snapshot is empty: \<open>SwitchToNode\<close> of
  the recipe service fails before it writes anything, and \<open>UpdateRecipeFromNode\<close>
  refuses the node. \<open>SetActiveNode\<close> of the tree service never changes the recipe's
  materialized fields for such a node, but it does not refuse it: when the node
  belongs to the recipe's tree the call succeeds and the node is the active one.
\<close>

theorem empty_snapshot_activation:
  "GetNodeByID db nodeID = Inr node \<and> n_Response node = None \<longrightarrow>
     SwitchToNode db recipeID nodeID
       = (db, Some (ErrorString ''cannot switch to node with no response'')) \<and>
     UpdateRecipeFromNode db recipeID node = Inl (ErrorString ''node response is nil'') \<and>
     recipes (fst (RecipeTreeService_SetActiveNode db recipeID nodeID)) = recipes db \<and>
     (GetTreeByRecipeID db recipeID = Inr tree \<and> n_TreeID node = t_ID tree \<longrightarrow>
        RecipeTreeService_SetActiveNode db recipeID nodeID
          = (activate_node (deactivate_all db (t_ID tree)) nodeID, None))"
proof (intro impI conjI; elim conjE)
  assume get: "GetNodeByID db nodeID = Inr node" and empty: "n_Response node = None"
  show "SwitchToNode db recipeID nodeID
      = (db, Some (ErrorString ''cannot switch to node with no response''))"
    by (simp add: SwitchToNode_def get empty)
  show "UpdateRecipeFromNode db recipeID node = Inl (ErrorString ''node response is nil'')"
    by (simp add: UpdateRecipeFromNode_def empty)
  show "recipes (fst (RecipeTreeService_SetActiveNode db recipeID nodeID)) = recipes db"
    using get empty by (rule TreeService_SetActiveNode_recipes)
  assume "GetTreeByRecipeID db recipeID = Inr tree" "n_TreeID node = t_ID tree"
  with get empty show "RecipeTreeService_SetActiveNode db recipeID nodeID
      = (activate_node (deactivate_all db (t_ID tree)) nodeID, None)"
    by (rule TreeService_SetActiveNode_empty)
qed

theorem empty_snapshot_activation_witness:
  "SwitchToNode exTreeDB 1 2
     = (exTreeDB, Some (ErrorString ''cannot switch to node with no response'')) \<and>
   UpdateRecipeFromNode exTreeDB 1 exBranch = Inl (ErrorString ''node response is nil'') \<and>
   recipes (fst (RecipeTreeService_SetActiveNode exTreeDB 1 2)) = recipes exTreeDB \<and>
   RecipeTreeService_SetActiveNode exTreeDB 1 2
     = (activate_node (deactivate_all exTreeDB 1) 2, None)"
proof -
  have get: "GetNodeByID exTreeDB 2 = Inr exBranch"
    by (simp add: GetNodeByID_def ex_defs)
  have empty: "n_Response exBranch = None"
    by (simp add: ex_defs)
  have tree: "GetTreeByRecipeID exTreeDB 1 = Inr \<lparr>t_ID = 1, t_RecipeID = 1, t_RootNodeID = Some 1\<rparr>"
    by (simp add: GetTreeByRecipeID_def ex_defs)
  have same: "n_TreeID exBranch = t_ID \<lparr>t_ID = 1, t_RecipeID = 1, t_RootNodeID = Some 1\<rparr>"
    by (simp add: ex_defs)
  from empty_snapshot_activation [of exTreeDB 2 exBranch 1
      "\<lparr>t_ID = 1, t_RecipeID = 1, t_RootNodeID = Some 1\<rparr>"] get empty tree same
  show ?thesis unfolding RecipeTree.select_convs by blast
qed

text \<open>
  C7, as stated, fails: the tree service's \<open>SetActiveNode\<close> on the branch node of
  the example tree, whose snapshot is empty, reports no error and changes the active
  flags: the root is no longer active and the branch node is.
\<close>

theorem empty_snapshot_activation_counterexample:
  "n_Response exBranch = None \<and>
   map (\<lambda>n. (n_ID n, n_IsActive n)) (recipe_nodes exTreeDB) = [(1, True), (2, False)] \<and>
   snd (RecipeTreeService_SetActiveNode exTreeDB 1 2) = None \<and>
   map (\<lambda>n. (n_ID n, n_IsActive n))
     (recipe_nodes (fst (RecipeTreeService_SetActiveNode exTreeDB 1 2)))
     = [(1, False), (2, True)]"
  by (simp add: RecipeTreeService_SetActiveNode_def tree_store_defs stmt_defs ex_defs)

section \<open>The ancestor walk\<close>









section \<open>Properties of the generation flows\<close>

lemma deleted_recipe_not_found:
  "GetRecipeByID (fst (DeleteRecipe db recipeID)) recipeID = Inl (NotFoundError ''Recipe not found'')"
proof -
  let ?g = "\<lambda>r. if r_ID r = recipeID \<and> \<not> r_Deleted r then r\<lparr>r_Deleted := True\<rparr> else r"
  have gone: "find (\<lambda>r. r_ID r = recipeID \<and> \<not> r_Deleted r) (map ?g rs) = None" for rs
    by (induction rs) simp_all
  show ?thesis
    by (simp add: GetRecipeByID_def DeleteRecipe_def Repo_DeleteRecipe_def gone)
qed

lemma regenerateTextTask_provider_error:
  "RegenerateRecipe req = Inl err \<Longrightarrow>
   regenerateTextTask toLower RegenerateRecipe db recipe req = (db, Some err)"
  by (simp add: regenerateTextTask_def)

lemma forkTextTask_provider_error:
  "ForkRecipe req = Inl err \<Longrightarrow> forkTextTask toLower ForkRecipe db recipe req = (db, Some err)"
  by (simp add: forkTextTask_def)

text \<open>
  C2, as the code has it. When the text generation of a regeneration fails, or the
  deadline expires while the text is being generated, \<open>FinishRegenerateRecipe\<close>
  deletes the existing recipe: afterwards the recipe is not found. The fork flow does
  the same with the recipe it created.
\<close>

theorem failed_text_generation_deletes_recipe:
  "(RegenerateRecipe (regenerateRequest marshal recipe user userPrompt) = Inl err
      \<and> first = TextTaskDone \<or> first = DeadlineExpired
    \<longrightarrow> GetRecipeByID
          (FinishRegenerateRecipe marshal toLower RegenerateRecipe db recipe user userPrompt first)
          (r_ID recipe)
        = Inl (NotFoundError ''Recipe not found'')) \<and>
   (r_History recipe2 = Some entries \<and>
    (ForkRecipe (forkRequest marshal entries recipe2 user userPrompt) = Inl err
       \<and> first2 = TextTaskDone \<or> first2 = DeadlineExpired)
    \<longrightarrow> (\<exists>db'. FinishGenerateRecipeWithFork marshal toLower ForkRecipe db2 recipe2 user
                  userPrompt first2 = Inr db'
              \<and> GetRecipeByID db' (r_ID recipe2) = Inl (NotFoundError ''Recipe not found'')))"
proof (intro conjI impI)
  assume "RegenerateRecipe (regenerateRequest marshal recipe user userPrompt) = Inl err
      \<and> first = TextTaskDone \<or> first = DeadlineExpired"
  then show "GetRecipeByID
      (FinishRegenerateRecipe marshal toLower RegenerateRecipe db recipe user userPrompt first)
      (r_ID recipe) = Inl (NotFoundError ''Recipe not found'')"
  proof
    assume "RegenerateRecipe (regenerateRequest marshal recipe user userPrompt) = Inl err
        \<and> first = TextTaskDone"
    then show ?thesis
      by (simp add: FinishRegenerateRecipe_def regenerateTextTask_provider_error
          deleted_recipe_not_found)
  next
    assume "first = DeadlineExpired"
    then show ?thesis
      by (simp add: FinishRegenerateRecipe_def deleted_recipe_not_found)
  qed
next
  assume a: "r_History recipe2 = Some entries \<and>
    (ForkRecipe (forkRequest marshal entries recipe2 user userPrompt) = Inl err
       \<and> first2 = TextTaskDone \<or> first2 = DeadlineExpired)"
  then have hist: "r_History recipe2 = Some entries" by simp
  from a have "ForkRecipe (forkRequest marshal entries recipe2 user userPrompt) = Inl err
       \<and> first2 = TextTaskDone \<or> first2 = DeadlineExpired" by simp
  then show "\<exists>db'. FinishGenerateRecipeWithFork marshal toLower ForkRecipe db2 recipe2 user
        userPrompt first2 = Inr db'
      \<and> GetRecipeByID db' (r_ID recipe2) = Inl (NotFoundError ''Recipe not found'')"
  proof
    assume "ForkRecipe (forkRequest marshal entries recipe2 user userPrompt) = Inl err
        \<and> first2 = TextTaskDone"
    then show ?thesis
      by (simp add: FinishGenerateRecipeWithFork_def hist forkTextTask_provider_error
          deleted_recipe_not_found)
  next
    assume "first2 = DeadlineExpired"
    then show ?thesis
      by (simp add: FinishGenerateRecipeWithFork_def hist deleted_recipe_not_found)
  qed
qed

theorem failed_text_generation_deletes_recipe_witness:
  "GetRecipeByID
     (FinishRegenerateRecipe exMarshal exToLower exFailingProvider exTreeDB exLoadedRecipe exUser
        ''more salt'' TextTaskDone) (r_ID exLoadedRecipe)
     = Inl (NotFoundError ''Recipe not found'') \<and>
   (\<exists>db'. FinishGenerateRecipeWithFork exMarshal exToLower exFailingProvider exForkDB
        exForkRecipe exUser ''more salt'' DeadlineExpired = Inr db'
      \<and> GetRecipeByID db' (r_ID exForkRecipe) = Inl (NotFoundError ''Recipe not found''))"
proof -
  have fails: "exFailingProvider (regenerateRequest exMarshal exLoadedRecipe exUser ''more salt'')
      = Inl (ErrorString ''upstream provider error'')"
    by (simp add: exFailingProvider_def)
  have hist: "r_History exForkRecipe = Some []"
    by (simp add: exForkRecipe_def)
  from failed_text_generation_deletes_recipe [of exFailingProvider exMarshal exLoadedRecipe exUser
      "''more salt''" "ErrorString ''upstream provider error''" TextTaskDone exToLower exTreeDB
      exForkRecipe "[]" exFailingProvider DeadlineExpired exForkDB] fails hist
  show ?thesis by blast
qed

text \<open>
  C2, as stated, fails: the recipe of the example store exists before the
  regeneration; the text generation fails; afterwards the recipe is not found and its
  row carries the delete mark.
\<close>

theorem regeneration_failure_counterexample:
  "GetRecipeByID exTreeDB 1 = Inr exRecipe \<and>
   GetRecipeByID
     (FinishRegenerateRecipe exMarshal exToLower exFailingProvider exTreeDB exLoadedRecipe exUser
        ''more salt'' TextTaskDone) 1
     = Inl (NotFoundError ''Recipe not found'') \<and>
   map r_Deleted (recipes
     (FinishRegenerateRecipe exMarshal exToLower exFailingProvider exTreeDB exLoadedRecipe exUser
        ''more salt'' TextTaskDone)) = [True]"
  by (simp add: flow_defs recipe_defs ex_defs ex_flow_defs)

lemma list_ex_map_same:
  "(\<And>x. P (g x) = P x) \<Longrightarrow> list_ex P (map g xs) = list_ex P xs"
  by (induction xs) simp_all


lemma deleted_not_visible:
  "\<not> recipe_visible (fst (DeleteRecipe db recipeID)) recipeID"
proof -
  let ?g = "\<lambda>r. if r_ID r = recipeID \<and> \<not> r_Deleted r then r\<lparr>r_Deleted := True\<rparr> else r"
  have gone: "\<not> list_ex (\<lambda>r. r_ID r = recipeID \<and> \<not> r_Deleted r) (map ?g rs)" for rs
    by (induction rs) simp_all
  show ?thesis
    by (simp add: recipe_visible_def DeleteRecipe_def Repo_DeleteRecipe_def gone)
qed

lemma UpdateRecipeDef_effect:
  assumes "UpdateRecipeDef db recipe e = Inr db1"
  shows "core_columns db" and "r_HistoryID recipe \<noteq> 0"
    and "db1 = db\<lparr>recipe_history_entries := recipe_history_entries db
            @ [e\<lparr>he_ID := entry_seq db, he_CreatedAt := clock db,
                 he_HistoryID := r_HistoryID recipe\<rparr>],
          entry_seq := Suc (entry_seq db), clock := Suc (clock db),
          stmt_log := stmt_log db
            @ [UpdateRecipeCore (r_ID recipe) (core_fields (r_Def recipe)),
               InsertHistoryEntry (entry_seq db)]\<rparr>"
proof -
  show cols: "core_columns db"
    using assms by (simp add: UpdateRecipeDef_def update_recipe_core_def split: if_splits)
  show hid: "r_HistoryID recipe \<noteq> 0"
    using assms cols by (simp add: UpdateRecipeDef_def update_recipe_core_def split: if_splits)
  show "db1 = db\<lparr>recipe_history_entries := recipe_history_entries db
            @ [e\<lparr>he_ID := entry_seq db, he_CreatedAt := clock db,
                 he_HistoryID := r_HistoryID recipe\<rparr>],
          entry_seq := Suc (entry_seq db), clock := Suc (clock db),
          stmt_log := stmt_log db
            @ [UpdateRecipeCore (r_ID recipe) (core_fields (r_Def recipe)),
               InsertHistoryEntry (entry_seq db)]\<rparr>"
    using assms cols hid
    by (auto simp: UpdateRecipeDef_def update_recipe_core_def create_history_entry_def Let_def)
qed

lemma UpdateRecipeDef_accepted:
  "core_columns db \<Longrightarrow> r_HistoryID recipe \<noteq> 0 \<Longrightarrow> \<exists>db1. UpdateRecipeDef db recipe e = Inr db1"
  by (simp add: UpdateRecipeDef_def update_recipe_core_def)








lemma populateRecipeCoreFields_success:
  assumes "populateRecipeCoreFields recipe result he = (recipe1, None)"
  shows "\<exists>entries. r_History recipe = Some entries \<and>
    recipe1 = recipe\<lparr>r_Def := recipeResultToRecipeDef result,
                     r_History := Some (entries @ [he])\<rparr>"
proof (cases "r_History recipe")
  case None
  with assms show ?thesis
    by (simp add: populateRecipeCoreFields_def Let_def)
next
  case (Some entries)
  with assms have "recipe1 = recipe\<lparr>r_Def := recipeResultToRecipeDef result,
      r_History := Some (entries @ [he])\<rparr>"
    by (simp add: populateRecipeCoreFields_def Let_def)
  with Some show ?thesis by simp
qed

lemma regenerateTextTask_success:
  assumes run: "regenerateTextTask toLower RegenerateRecipe db recipe req = (db', None)"
  shows "\<exists>result entries db1. RegenerateRecipe req = Inr result \<and>
    r_History recipe = Some entries \<and>
    populateRecipeCoreFields recipe result (newHistoryEntry (rq_UserPrompt req) result)
      = (recipe\<lparr>r_Def := recipeResultToRecipeDef result,
                 r_History := Some (entries @ [newHistoryEntry (rq_UserPrompt req) result])\<rparr>,
         None) \<and>
    UpdateRecipeDef db
      (recipe\<lparr>r_Def := recipeResultToRecipeDef result,
              r_History := Some (entries @ [newHistoryEntry (rq_UserPrompt req) result])\<rparr>)
      (newHistoryEntry (rq_UserPrompt req) result) = Inr db1"
proof (cases "RegenerateRecipe req")
  case (Inl err)
  with run show ?thesis by (simp add: regenerateTextTask_def)
next
  case (Inr result)
  let ?he = "newHistoryEntry (rq_UserPrompt req) result"
  obtain recipe1 perr where pop: "populateRecipeCoreFields recipe result ?he = (recipe1, perr)"
    by (cases "populateRecipeCoreFields recipe result ?he") simp
  show ?thesis
  proof (cases perr)
    case (Some err)
    with run Inr pop show ?thesis by (simp add: regenerateTextTask_def)
  next
    case None
    from populateRecipeCoreFields_success [OF pop [unfolded None]] obtain entries where
      hist: "r_History recipe = Some entries"
      and r1: "recipe1 = recipe\<lparr>r_Def := recipeResultToRecipeDef result,
                     r_History := Some (entries @ [?he])\<rparr>"
      by blast
    show ?thesis
    proof (cases "UpdateRecipeDef db recipe1 ?he")
      case (Inl err)
      with run Inr pop None show ?thesis by (simp add: regenerateTextTask_def)
    next
      case upd: (Inr db1)
      from Inr hist pop None upd show ?thesis
        unfolding r1 by blast
    qed
  qed
qed

lemma forkTextTask_success:
  assumes run: "forkTextTask toLower ForkRecipe db recipe req = (db', None)"
  shows "\<exists>result entries db1. ForkRecipe req = Inr result \<and>
    r_History recipe = Some entries \<and>
    populateRecipeCoreFields recipe result (newHistoryEntry (rq_UserPrompt req) result)
      = (recipe\<lparr>r_Def := recipeResultToRecipeDef result,
                 r_History := Some (entries @ [newHistoryEntry (rq_UserPrompt req) result])\<rparr>,
         None) \<and>
    UpdateRecipeDef db
      (recipe\<lparr>r_Def := recipeResultToRecipeDef result,
              r_History := Some (entries @ [newHistoryEntry (rq_UserPrompt req) result])\<rparr>)
      (newHistoryEntry (rq_UserPrompt req) result) = Inr db1"
proof (cases "ForkRecipe req")
  case (Inl err)
  with run show ?thesis by (simp add: forkTextTask_def)
next
  case (Inr result)
  let ?he = "newHistoryEntry (rq_UserPrompt req) result"
  obtain recipe1 perr where pop: "populateRecipeCoreFields recipe result ?he = (recipe1, perr)"
    by (cases "populateRecipeCoreFields recipe result ?he") simp
  show ?thesis
  proof (cases perr)
    case (Some err)
    with run Inr pop show ?thesis by (simp add: forkTextTask_def)
  next
    case None
    from populateRecipeCoreFields_success [OF pop [unfolded None]] obtain entries where
      hist: "r_History recipe = Some entries"
      and r1: "recipe1 = recipe\<lparr>r_Def := recipeResultToRecipeDef result,
                     r_History := Some (entries @ [?he])\<rparr>"
      by blast
    show ?thesis
    proof (cases "UpdateRecipeDef db recipe1 ?he")
      case (Inl err)
      with run Inr pop None show ?thesis by (simp add: forkTextTask_def)
    next
      case upd: (Inr db1)
      from Inr hist pop None upd show ?thesis
        unfolding r1 by blast
    qed
  qed
qed



lemma FinishRegenerateRecipe_kept:
  assumes "recipe_visible
      (FinishRegenerateRecipe marshal toLower RegenerateRecipe db recipe user userPrompt first)
      (r_ID recipe)"
  shows "regenerateTextTask toLower RegenerateRecipe db recipe
      (regenerateRequest marshal recipe user userPrompt)
    = (FinishRegenerateRecipe marshal toLower RegenerateRecipe db recipe user userPrompt first,
       None)"
proof (cases first)
  case DeadlineExpired
  with assms deleted_not_visible [of db "r_ID recipe"] show ?thesis
    by (simp add: FinishRegenerateRecipe_def)
next
  case TextTaskDone
  obtain db1 e where task: "regenerateTextTask toLower RegenerateRecipe db recipe
      (regenerateRequest marshal recipe user userPrompt) = (db1, e)"
    by (cases "regenerateTextTask toLower RegenerateRecipe db recipe
      (regenerateRequest marshal recipe user userPrompt)") simp
  show ?thesis
  proof (cases e)
    case None
    with task TextTaskDone show ?thesis
      by (simp add: FinishRegenerateRecipe_def)
  next
    case (Some err)
    with task TextTaskDone assms deleted_not_visible [of db1 "r_ID recipe"] show ?thesis
      by (simp add: FinishRegenerateRecipe_def)
  qed
qed

lemma FinishGenerateRecipeWithFork_kept:
  assumes fin: "FinishGenerateRecipeWithFork marshal toLower ForkRecipe db recipe user
      userPrompt first = Inr db'"
    and vis: "recipe_visible db' (r_ID recipe)"
  shows "\<exists>entries. r_History recipe = Some entries \<and>
    forkTextTask toLower ForkRecipe db recipe (forkRequest marshal entries recipe user userPrompt)
      = (db', None)"
proof (cases "r_History recipe")
  case None
  with fin show ?thesis
    by (simp add: FinishGenerateRecipeWithFork_def)
next
  case (Some entries)
  obtain db1 e where task: "forkTextTask toLower ForkRecipe db recipe
      (forkRequest marshal entries recipe user userPrompt) = (db1, e)"
    by (cases "forkTextTask toLower ForkRecipe db recipe
      (forkRequest marshal entries recipe user userPrompt)") simp
  show ?thesis
  proof (cases first)
    case DeadlineExpired
    with fin Some vis deleted_not_visible [of db "r_ID recipe"] show ?thesis
      by (auto simp: FinishGenerateRecipeWithFork_def)
  next
    case TextTaskDone
    show ?thesis
    proof (cases e)
      case None
      with task TextTaskDone fin Some show ?thesis
        by (simp add: FinishGenerateRecipeWithFork_def)
    next
      case err: (Some err)
      with task TextTaskDone fin Some vis deleted_not_visible [of db1 "r_ID recipe"]
      show ?thesis
        by (auto simp: FinishGenerateRecipeWithFork_def)
    qed
  qed
qed

text \<open>
  Where no commit comes about. A run of \<open>FinishRegenerateRecipe\<close> that leaves the
  recipe in place has had its core-field update accepted and was given a recipe with
  its history loaded; likewise a run of \<open>FinishGenerateRecipeWithFork\<close>. So under the
  table that the mapper creates from the model (\<open>core_columns\<close> false), and for a
  recipe as \<open>GetRecipeByID\<close> returns it (no history loaded), every run ends with the
  recipe deleted, whatever the collaborator returns.
\<close>

lemma commit_needs_columns_and_history:
  "recipe_visible
     (FinishRegenerateRecipe marshal toLower RegenerateRecipe db recipe user userPrompt first)
     (r_ID recipe)
   \<Longrightarrow> core_columns db \<and> r_History recipe \<noteq> None"
  "FinishGenerateRecipeWithFork marshal toLower ForkRecipe db recipe user userPrompt first
     = Inr db' \<Longrightarrow> recipe_visible db' (r_ID recipe)
   \<Longrightarrow> core_columns db \<and> r_History recipe \<noteq> None"
proof -
  assume "recipe_visible
     (FinishRegenerateRecipe marshal toLower RegenerateRecipe db recipe user userPrompt first)
     (r_ID recipe)"
  from regenerateTextTask_success [OF FinishRegenerateRecipe_kept [OF this]]
  obtain result entries db1 where "r_History recipe = Some entries"
    and upd: "UpdateRecipeDef db
      (recipe\<lparr>r_Def := recipeResultToRecipeDef result,
              r_History := Some (entries @ [newHistoryEntry
                (rq_UserPrompt (regenerateRequest marshal recipe user userPrompt)) result])\<rparr>)
      (newHistoryEntry (rq_UserPrompt (regenerateRequest marshal recipe user userPrompt)) result)
      = Inr db1"
    by blast
  with UpdateRecipeDef_effect(1) [OF upd] show "core_columns db \<and> r_History recipe \<noteq> None"
    by simp
next
  assume "FinishGenerateRecipeWithFork marshal toLower ForkRecipe db recipe user userPrompt first
     = Inr db'" "recipe_visible db' (r_ID recipe)"
  from FinishGenerateRecipeWithFork_kept [OF this] obtain entries0 where
    task: "forkTextTask toLower ForkRecipe db recipe
      (forkRequest marshal entries0 recipe user userPrompt) = (db', None)"
    by blast
  from forkTextTask_success [OF task]
  obtain result entries db1 where "r_History recipe = Some entries"
    and upd: "UpdateRecipeDef db
      (recipe\<lparr>r_Def := recipeResultToRecipeDef result,
              r_History := Some (entries @ [newHistoryEntry
                (rq_UserPrompt (forkRequest marshal entries0 recipe user userPrompt)) result])\<rparr>)
      (newHistoryEntry (rq_UserPrompt (forkRequest marshal entries0 recipe user userPrompt)) result)
      = Inr db1"
    by blast
  with UpdateRecipeDef_effect(1) [OF upd] show "core_columns db \<and> r_History recipe \<noteq> None"
    by simp
qed

lemma unloaded_recipe:
  "GetRecipeByID db recipeID = Inr recipe \<Longrightarrow> r_History recipe = None"
  by (auto simp: GetRecipeByID_def split: option.splits)




section \<open>Properties of the full tree\<close>

lemma filter_nth_distinct:
  "distinct (map f xs) \<Longrightarrow> j < length xs \<Longrightarrow> filter (\<lambda>x. f x = f (xs ! j)) xs = [xs ! j]"
proof (induction xs arbitrary: j)
  case Nil
  then show ?case by simp
next
  case (Cons x xs)
  show ?case
  proof (cases j)
    case 0
    from Cons.prems have "\<forall>y \<in> set xs. f y \<noteq> f x" by (auto simp: image_iff)
    then have "filter (\<lambda>y. f y = f x) xs = []"
      by (simp add: filter_empty_conv)
    with 0 show ?thesis by simp
  next
    case (Suc i)
    with Cons.prems have i: "i < length xs" and "f x \<noteq> f (xs ! i)"
      by force+
    with Cons.IH [of i] Cons.prems Suc show ?thesis by simp
  qed
qed

lemma buildNodeMap_snoc:
  "buildNodeMap (ns @ [n]) = (buildNodeMap ns)(n_ID n \<mapsto> toNodeResponse n)"
  by (simp add: buildNodeMap_def)

lemma buildNodeMap_lookup:
  "distinct (map n_ID ns) \<Longrightarrow> n \<in> set ns \<Longrightarrow> buildNodeMap ns (n_ID n) = Some (toNodeResponse n)"
proof (induction ns rule: rev_induct)
  case Nil
  then show ?case by simp
next
  case (snoc x xs)
  show ?case
  proof (cases "n = x")
    case True
    then show ?thesis by (simp add: buildNodeMap_snoc)
  next
    case False
    with snoc.prems have mem: "n \<in> set xs" by simp
    with snoc.prems have "n_ID x \<noteq> n_ID n" by force
    with snoc mem show ?thesis by (simp add: buildNodeMap_snoc)
  qed
qed

lemma findRootNode_snoc:
  "findRootNode tree (ns @ [n]) nodeMap =
     (if t_RootNodeID tree = Some (n_ID n) then nodeMap (n_ID n) else findRootNode tree ns nodeMap)"
  by (simp add: findRootNode_def)

lemma findRootNode_found:
  "t_RootNodeID tree = Some r \<Longrightarrow> r \<in> set (map n_ID ns) \<Longrightarrow> findRootNode tree ns nodeMap = nodeMap r"
proof (induction ns rule: rev_induct)
  case Nil
  then show ?case by simp
next
  case (snoc x xs)
  then show ?case
    by (cases "n_ID x = r") (simp_all add: findRootNode_snoc)
qed

lemma chainResp_shape:
  "nr_flat (chainResp n rest) = map (nr_Info \<circ> toNodeResponse) (n # rest) \<and>
   nr_depth (chainResp n rest) = Suc (length rest) \<and> nr_linear (chainResp n rest)"
  by (induction n rest rule: chainResp.induct) simp_all

lemma chain_ids:
  assumes "is_chain b ns" and "k < length ns"
  shows "n_ID (ns ! k) = b + k"
proof -
  from assms have "map n_ID ns ! k = [b ..< b + length ns] ! k"
    by (simp add: is_chain_def)
  with assms(2) show ?thesis by simp
qed

lemma chain_distinct:
  assumes "is_chain b ns"
  shows "distinct (map n_ID ns)"
  using assms by (simp add: is_chain_def)

lemma chain_children:
  assumes chain: "is_chain b ns" and k: "k < length ns"
  shows "filter (\<lambda>m. n_ParentID m = Some (n_ID (ns ! k))) ns
    = (if Suc k < length ns then [ns ! Suc k] else [])"
proof -
  have idk: "n_ID (ns ! k) = b + k"
    using chain k by (rule chain_ids)
  have par: "n_ParentID m = (if n_ID m = b then None else Some (n_ID m - 1))"
    and lo: "b \<le> n_ID m" and hi: "n_ID m < b + length ns" if "m \<in> set ns" for m
  proof -
    from chain that show "n_ParentID m = (if n_ID m = b then None else Some (n_ID m - 1))"
      by (simp add: is_chain_def list_all_iff)
    from that have "n_ID m \<in> set (map n_ID ns)" by simp
    with chain have "n_ID m \<in> set [b ..< b + length ns]" by (simp add: is_chain_def)
    then show "b \<le> n_ID m" "n_ID m < b + length ns" by simp_all
  qed
  have same: "filter (\<lambda>m. n_ParentID m = Some (n_ID (ns ! k))) ns
      = filter (\<lambda>m. n_ID m = b + Suc k) ns"
  proof (rule filter_cong [OF refl])
    fix m assume m: "m \<in> set ns"
    show "(n_ParentID m = Some (n_ID (ns ! k))) = (n_ID m = b + Suc k)"
      using par [OF m] lo [OF m] by (auto simp: idk)
  qed
  show ?thesis
  proof (cases "Suc k < length ns")
    case True
    have "n_ID (ns ! Suc k) = b + Suc k"
      using chain True by (rule chain_ids)
    with filter_nth_distinct [OF chain_distinct [OF chain] True]
    have "filter (\<lambda>m. n_ID m = b + Suc k) ns = [ns ! Suc k]" by simp
    with same True show ?thesis by simp
  next
    case False
    have "filter (\<lambda>m. n_ID m = b + Suc k) ns = []"
      using hi False by (fastforce simp: filter_empty_conv)
    with same False show ?thesis by simp
  qed
qed

lemma rebuildNode_chain:
  assumes chain: "is_chain b ns"
  shows "k < length ns \<Longrightarrow> length ns - k \<le> fuel \<Longrightarrow>
    rebuildNode fuel (toNodeResponse (ns ! k)) (buildNodeMap ns) ns
      = Some (Inr (chainResp (ns ! k) (drop (Suc k) ns)))"
proof (induction fuel arbitrary: k)
  case 0
  then show ?case by simp
next
  case (Suc fuel)
  have info: "ni_ID (nr_Info (toNodeResponse (ns ! k))) = n_ID (ns ! k)"
    by (simp add: toNodeResponse_def)
  note kids = chain_children [OF chain Suc.prems(1)]
  show ?case
  proof (cases "Suc k < length ns")
    case True
    have look: "buildNodeMap ns (n_ID (ns ! Suc k)) = Some (toNodeResponse (ns ! Suc k))"
      using chain_distinct [OF chain] True by (intro buildNodeMap_lookup) simp_all
    have rec: "rebuildNode fuel (toNodeResponse (ns ! Suc k)) (buildNodeMap ns) ns
        = Some (Inr (chainResp (ns ! Suc k) (drop (Suc (Suc k)) ns)))"
      using True Suc.prems by (intro Suc.IH) simp_all
    have "drop (Suc k) ns = ns ! Suc k # drop (Suc (Suc k)) ns"
      using True by (simp add: Cons_nth_drop_Suc)
    then show ?thesis
      using True by (simp add: info kids look rec)
  next
    case False
    then have "drop (Suc k) ns = []" by simp
    then show ?thesis
      using False by (simp add: info kids)
  qed
qed

lemma tree_nodes_AddNodeToTree:
  assumes fresh: "\<forall>n \<in> set (recipe_nodes db). n_ID n < node_seq db"
    and tree: "n_TreeID node = treeID"
    and add: "AddNodeToTree db node True = Inr (row, db')"
  shows "tree_nodes db' treeID
      = map (\<lambda>n. n\<lparr>n_IsActive := False\<rparr>) (tree_nodes db treeID) @ [row]"
    and "row = node\<lparr>n_ID := node_seq db, n_CreatedAt := clock db,
        n_BranchName := (if n_BranchName node = [] then ''original'' else n_BranchName node),
        n_IsActive := True\<rparr>"
    and "node_seq db' = Suc (node_seq db)" and "clock db' = Suc (clock db)"
    and "recipe_trees db' = recipe_trees db" and "tree_seq db' = tree_seq db"
    and "\<forall>n \<in> set (recipe_nodes db'). n_ID n < node_seq db'"
proof -
  let ?new = "node\<lparr>n_ID := node_seq db, n_CreatedAt := clock db,
      n_BranchName := (if n_BranchName node = [] then ''original'' else n_BranchName node)\<rparr>"
  let ?g = "\<lambda>n. if n_ID n = node_seq db then n\<lparr>n_IsActive := True\<rparr> else n"
  let ?f = "\<lambda>n. if n_TreeID n = treeID \<and> n_ID n \<noteq> node_seq db
      then n\<lparr>n_IsActive := False\<rparr> else n"
  from add tree have row: "row = ?new\<lparr>n_IsActive := True\<rparr>"
    and nodes: "recipe_nodes db' = map ?g (map ?f (recipe_nodes db)) @ [row]"
    and rest: "node_seq db' = Suc (node_seq db)" "clock db' = Suc (clock db)"
      "recipe_trees db' = recipe_trees db" "tree_seq db' = tree_seq db"
    by (auto simp: AddNodeToTree_def stmt_defs Let_def)
  show "row = node\<lparr>n_ID := node_seq db, n_CreatedAt := clock db,
        n_BranchName := (if n_BranchName node = [] then ''original'' else n_BranchName node),
        n_IsActive := True\<rparr>"
    by (simp add: row)
  show "node_seq db' = Suc (node_seq db)" "clock db' = Suc (clock db)"
    "recipe_trees db' = recipe_trees db" "tree_seq db' = tree_seq db"
    by (fact rest)+
  have old: "filter (\<lambda>n. n_TreeID n = treeID) (map ?g (map ?f ns))
      = map (\<lambda>n. n\<lparr>n_IsActive := False\<rparr>) (filter (\<lambda>n. n_TreeID n = treeID) ns)"
    if "\<forall>n \<in> set ns. n_ID n < node_seq db" for ns
    using that by (induction ns) auto
  show "tree_nodes db' treeID
      = map (\<lambda>n. n\<lparr>n_IsActive := False\<rparr>) (tree_nodes db treeID) @ [row]"
    unfolding tree_nodes_def nodes using old [OF fresh] tree by (simp add: row)
  have "n_ID (?g (?f n)) = n_ID n" for n by simp
  then show "\<forall>n \<in> set (recipe_nodes db'). n_ID n < node_seq db'"
    unfolding nodes rest using fresh by (auto simp: row less_Suc_eq)
qed

lemma is_chain_extend:
  assumes chain: "is_chain b ns"
    and id: "n_ID row = b + length ns" and par: "n_ParentID row = Some (b + length ns - 1)"
    and act: "n_IsActive row" and time: "\<forall>n \<in> set ns. n_CreatedAt n \<le> n_CreatedAt row"
  shows "is_chain b (map (\<lambda>n. n\<lparr>n_IsActive := False\<rparr>) ns @ [row])"
proof -
  let ?ns' = "map (\<lambda>n. n\<lparr>n_IsActive := False\<rparr>) ns @ [row]"
  from chain have ne: "ns \<noteq> []" and ids: "map n_ID ns = [b ..< b + length ns]"
    and pars: "list_all (\<lambda>m. n_ParentID m = (if n_ID m = b then None else Some (n_ID m - 1))) ns"
    and sorted: "sorted (map n_CreatedAt ns)"
    by (simp_all add: is_chain_def)
  from ne have len: "0 < length ns" by simp
  have 1: "map n_ID ?ns' = [b ..< b + length ?ns']"
    by (simp add: comp_def ids id)
  have 2: "list_all (\<lambda>m. n_ParentID m = (if n_ID m = b then None else Some (n_ID m - 1))) ?ns'"
    using pars len by (simp add: list_all_iff id par)
  have 3: "map n_IsActive ?ns' = replicate (length ?ns' - 1) False @ [True]"
    using act by (simp add: comp_def map_replicate_const)
  have 4: "sorted (map n_CreatedAt ?ns')"
    using sorted time by (simp add: comp_def sorted_append)
  from 1 2 3 4 show ?thesis
    unfolding is_chain_def by simp
qed

lemma addChain_chain:
  "is_chain b (tree_nodes db treeID) \<Longrightarrow>
   node_seq db = b + length (tree_nodes db treeID) \<Longrightarrow>
   parentID = b + length (tree_nodes db treeID) - 1 \<Longrightarrow>
   \<forall>n \<in> set (recipe_nodes db). n_ID n < node_seq db \<Longrightarrow>
   \<forall>n \<in> set (tree_nodes db treeID). n_CreatedAt n < clock db \<Longrightarrow>
   addChain db treeID parentID nodes = Inr (lastID, db') \<Longrightarrow>
   is_chain b (tree_nodes db' treeID) \<and>
   length (tree_nodes db' treeID) = length (tree_nodes db treeID) + length nodes \<and>
   lastID = b + length (tree_nodes db' treeID) - 1 \<and>
   recipe_trees db' = recipe_trees db"
proof (induction nodes arbitrary: db parentID)
  case Nil
  from Nil.prems(6) have "db' = db" "lastID = parentID" by simp_all
  with Nil.prems(1,3) show ?case by simp
next
  case (Cons node nodes)
  let ?node = "node\<lparr>n_TreeID := treeID, n_ParentID := Some parentID\<rparr>"
  let ?ns = "tree_nodes db treeID"
  from Cons.prems(6) obtain row db1 where
    add: "AddNodeToTree db ?node True = Inr (row, db1)"
    and rest: "addChain db1 treeID (n_ID row) nodes = Inr (lastID, db')"
    by (auto split: sum.splits)
  have tree: "n_TreeID ?node = treeID" by simp
  note step = tree_nodes_AddNodeToTree [OF Cons.prems(4) tree add]
  from Cons.prems(1) have len: "0 < length ?ns"
    by (simp add: is_chain_def)
  have row_id: "n_ID row = b + length ?ns"
    using Cons.prems(2) by (simp add: step(2))
  have row_par: "n_ParentID row = Some (b + length ?ns - 1)"
    using Cons.prems(3) by (simp add: step(2))
  have row_time: "\<forall>n \<in> set ?ns. n_CreatedAt n \<le> n_CreatedAt row"
    using Cons.prems(5) by (auto simp: step(2))
  have chain1: "is_chain b (tree_nodes db1 treeID)"
    unfolding step(1) using Cons.prems(1) row_id row_par _ row_time
    by (rule is_chain_extend) (simp add: step(2))
  have len1: "length (tree_nodes db1 treeID) = Suc (length ?ns)"
    by (simp add: step(1))
  have seq1: "node_seq db1 = b + length (tree_nodes db1 treeID)"
    using Cons.prems(2) by (simp add: step(3) len1)
  have par1: "n_ID row = b + length (tree_nodes db1 treeID) - 1"
    by (simp add: row_id len1)
  have time1: "\<forall>n \<in> set (tree_nodes db1 treeID). n_CreatedAt n < clock db1"
    using Cons.prems(5) by (auto simp: step(1) step(2) step(4) less_Suc_eq)
  from Cons.IH [OF chain1 seq1 par1 step(7) time1 rest]
  show ?case
    by (simp add: len1 step(5))
qed

lemma find_append_miss:
  "\<not> list_ex P xs \<Longrightarrow> find P (xs @ ys) = find P ys"
  by (induction xs) simp_all

lemma CreateRecipeTree_chain:
  assumes keys: "keys_ok db" and parent: "n_ParentID rootNode = None"
    and create: "CreateRecipeTree db recipeID rootNode = Inr (tree, root, db1)"
  shows "tree = \<lparr>t_ID = tree_seq db, t_RecipeID = recipeID, t_RootNodeID = Some (node_seq db)\<rparr>"
    and "recipe_trees db1 = recipe_trees db @ [tree]"
    and "n_ID root = node_seq db"
    and "is_chain (node_seq db) (tree_nodes db1 (tree_seq db))"
    and "node_seq db1 = node_seq db + length (tree_nodes db1 (tree_seq db))"
    and "length (tree_nodes db1 (tree_seq db)) = 1"
    and "\<forall>n \<in> set (recipe_nodes db1). n_ID n < node_seq db1"
    and "\<forall>n \<in> set (tree_nodes db1 (tree_seq db)). n_CreatedAt n < clock db1"
    and "unique_tree_recipe db \<longrightarrow> \<not> list_ex (\<lambda>t. t_RecipeID t = recipeID) (recipe_trees db)"
proof -
  let ?row = "rootNode\<lparr>n_TreeID := tree_seq db, n_IsActive := True, n_ID := node_seq db,
      n_CreatedAt := Suc (clock db),
      n_BranchName := (if n_BranchName rootNode = [] then ''original'' else n_BranchName rootNode)\<rparr>"
  from create have uniq: "\<not> (unique_tree_recipe db
      \<and> list_ex (\<lambda>t. t_RecipeID t = recipeID) (recipe_trees db))"
    by (auto simp: CreateRecipeTree_def create_tree_def split: if_splits)
  then show "unique_tree_recipe db \<longrightarrow> \<not> list_ex (\<lambda>t. t_RecipeID t = recipeID) (recipe_trees db)"
    by simp
  from create uniq have tree: "tree = \<lparr>t_ID = tree_seq db, t_RecipeID = recipeID,
        t_RootNodeID = Some (node_seq db)\<rparr>"
    and root: "root = ?row"
    and trees: "recipe_trees db1 = map (\<lambda>t. if t_ID t = tree_seq db
        then t\<lparr>t_RootNodeID := Some (node_seq db)\<rparr> else t)
        (recipe_trees db @ [\<lparr>t_ID = tree_seq db, t_RecipeID = recipeID, t_RootNodeID = None\<rparr>])"
    and nodes: "recipe_nodes db1 = recipe_nodes db @ [?row]"
    and seq: "node_seq db1 = Suc (node_seq db)" and clock: "clock db1 = Suc (Suc (clock db))"
    by (auto simp: CreateRecipeTree_def stmt_defs Let_def split: if_splits)
  show "tree = \<lparr>t_ID = tree_seq db, t_RecipeID = recipeID, t_RootNodeID = Some (node_seq db)\<rparr>"
    by (fact tree)
  from keys have old_trees: "\<forall>t \<in> set (recipe_trees db). t_ID t \<noteq> tree_seq db"
    and old_nodes: "\<forall>n \<in> set (recipe_nodes db). n_TreeID n \<noteq> tree_seq db"
    and old_ids: "\<forall>n \<in> set (recipe_nodes db). n_ID n < node_seq db"
    by (auto simp: keys_ok_def)
  have "map (\<lambda>t. if t_ID t = tree_seq db then t\<lparr>t_RootNodeID := Some (node_seq db)\<rparr> else t)
      (recipe_trees db) = recipe_trees db"
    using old_trees by (simp add: map_idI)
  then show "recipe_trees db1 = recipe_trees db @ [tree]"
    by (simp add: trees tree)
  show "n_ID root = node_seq db"
    by (simp add: root)
  have "filter (\<lambda>n. n_TreeID n = tree_seq db) (recipe_nodes db) = []"
    using old_nodes by (simp add: filter_empty_conv)
  then have tn: "tree_nodes db1 (tree_seq db) = [?row]"
    by (simp add: tree_nodes_def nodes)
  show "is_chain (node_seq db) (tree_nodes db1 (tree_seq db))"
    unfolding tn by (simp add: is_chain_def parent)
  show "node_seq db1 = node_seq db + length (tree_nodes db1 (tree_seq db))"
    and "length (tree_nodes db1 (tree_seq db)) = 1"
    unfolding tn by (simp_all add: seq)
  show "\<forall>n \<in> set (recipe_nodes db1). n_ID n < node_seq db1"
    using old_ids by (auto simp: nodes seq less_Suc_eq)
  show "\<forall>n \<in> set (tree_nodes db1 (tree_seq db)). n_CreatedAt n < clock db1"
    unfolding tn by (simp add: clock)
qed

lemma GetTree_of_chain:
  assumes trees: "recipe_trees db = old @ [tree]"
    and miss_recipe: "\<not> list_ex (\<lambda>t. t_RecipeID t = recipeID) old"
    and miss_id: "\<not> list_ex (\<lambda>t. t_ID t = t_ID tree) old"
    and recipe: "t_RecipeID tree = recipeID"
    and root: "t_RootNodeID tree = Some b"
    and chain: "is_chain b (tree_nodes db (t_ID tree))"
    and fuel: "length (tree_nodes db (t_ID tree)) \<le> fuel"
  shows "GetTree fuel db recipeID
    = Some (Inr \<lparr>ft_TreeID = t_ID tree, ft_RecipeID = recipeID, ft_RootNodeID = Some b,
        ft_RootNode = Some (chainResp (hd (tree_nodes db (t_ID tree)))
                                      (tl (tree_nodes db (t_ID tree))))\<rparr>)"
proof -
  let ?ns = "tree_nodes db (t_ID tree)"
  from chain have ne: "?ns \<noteq> []" and ids: "map n_ID ?ns = [b ..< b + length ?ns]"
    and sorted: "sorted (map n_CreatedAt ?ns)"
    by (simp_all add: is_chain_def)
  from ne have len: "0 < length ?ns" by simp
  have by_recipe: "GetTreeByRecipeID db recipeID = Inr tree"
    using miss_recipe recipe by (simp add: GetTreeByRecipeID_def trees find_append_miss)
  have "sort_key n_CreatedAt ?ns = ?ns"
    using sorted by (rule sort_key_id_if_sorted)
  then have with_nodes: "GetTreeWithNodes db (t_ID tree) = Inr (tree, ?ns)"
    using miss_id by (simp add: GetTreeWithNodes_def trees find_append_miss tree_nodes_def)
  have hd0: "hd ?ns = ?ns ! 0" and tl0: "tl ?ns = drop (Suc 0) ?ns"
    using ne by (simp_all add: hd_conv_nth drop_Suc)
  have id0: "n_ID (?ns ! 0) = b"
    using chain_ids [OF chain len] by simp
  have "b \<in> set (map n_ID ?ns)"
    unfolding ids using len by simp
  with root have "findRootNode tree ?ns (buildNodeMap ?ns) = buildNodeMap ?ns b"
    by (rule findRootNode_found)
  also have "\<dots> = Some (toNodeResponse (?ns ! 0))"
    using buildNodeMap_lookup [OF chain_distinct [OF chain], of "?ns ! 0"] len id0 by simp
  finally have root_entry: "findRootNode tree ?ns (buildNodeMap ?ns) = Some (toNodeResponse (?ns ! 0))" .
  have rebuilt: "rebuildNode fuel (toNodeResponse (?ns ! 0)) (buildNodeMap ?ns) ?ns
      = Some (Inr (chainResp (?ns ! 0) (drop (Suc 0) ?ns)))"
    using len fuel by (intro rebuildNode_chain [OF chain]) simp_all
  show ?thesis
    by (simp add: GetTree_def by_recipe with_nodes root_entry rebuilt recipe root hd0 tl0
        del: rebuildNode.simps)
qed

text \<open>
  C5. Let a store have well-formed keys and the unique index, and let a tree be built
  on it by \<open>CreateRecipeTree\<close> with a parentless root node followed by \<open>N\<close> calls of
  \<open>AddNodeToTree\<close> with \<open>setActive\<close>, each node the child of the one added before.
  Then \<open>GetTree\<close> returns, for every recursion budget above \<open>N\<close>, a nested response
  rooted at the tree's recorded root in which no node has more than one child, of
  depth \<open>N + 1\<close> with \<open>N + 1\<close> nodes; its last node in pre-order, the one at depth
  \<open>N + 1\<close>, is the node added last, and it is the only active one.
\<close>

theorem GetTree_linear_chain:
  "keys_ok db \<and> unique_tree_recipe db \<and> n_ParentID rootNode = None \<and>
   buildChain db recipeID rootNode nodes = Inr (tree, lastID, db') \<and> length nodes < fuel
   \<longrightarrow> (\<exists>root. GetTree fuel db' recipeID
            = Some (Inr \<lparr>ft_TreeID = t_ID tree, ft_RecipeID = recipeID,
                         ft_RootNodeID = t_RootNodeID tree, ft_RootNode = Some root\<rparr>) \<and>
          t_RootNodeID tree = Some (ni_ID (nr_Info root)) \<and>
          nr_linear root \<and> nr_depth root = length nodes + 1 \<and>
          length (nr_flat root) = length nodes + 1 \<and>
          map ni_IsActive (nr_flat root) = replicate (length nodes) False @ [True] \<and>
          ni_ID (last (nr_flat root)) = lastID)"
proof (intro impI; elim conjE)
  assume keys: "keys_ok db" and uniq: "unique_tree_recipe db"
    and parent: "n_ParentID rootNode = None"
    and build: "buildChain db recipeID rootNode nodes = Inr (tree, lastID, db')"
    and fuel: "length nodes < fuel"
  from build obtain root0 db1 where
    create: "CreateRecipeTree db recipeID rootNode = Inr (tree, root0, db1)"
    and add: "addChain db1 (t_ID tree) (n_ID root0) nodes = Inr (lastID, db')"
    by (auto simp: buildChain_def split: sum.splits)
  note c = CreateRecipeTree_chain [OF keys parent create]
  let ?b = "node_seq db"
  have T: "t_ID tree = tree_seq db" and R: "t_RecipeID tree = recipeID"
    and B: "t_RootNodeID tree = Some ?b"
    by (simp_all add: c(1))
  let ?ns = "tree_nodes db' (t_ID tree)"
  have par: "n_ID root0 = ?b + length (tree_nodes db1 (t_ID tree)) - 1"
    by (simp add: T c(3) c(6))
  from addChain_chain [of ?b db1 "t_ID tree" "n_ID root0" nodes lastID db']
    c(4) c(5) par c(7) c(8) add
  have chain: "is_chain ?b ?ns" and len: "length ?ns = length nodes + 1"
    and last_id: "lastID = ?b + length ?ns - 1" and trees: "recipe_trees db' = recipe_trees db @ [tree]"
    by (simp_all add: T c(6) c(2))
  have miss_recipe: "\<not> list_ex (\<lambda>t. t_RecipeID t = recipeID) (recipe_trees db)"
    using c(9) uniq by simp
  have miss_id: "\<not> list_ex (\<lambda>t. t_ID t = t_ID tree) (recipe_trees db)"
    using keys by (auto simp: keys_ok_def list_ex_iff T)
  let ?root = "chainResp (hd ?ns) (tl ?ns)"
  have get: "GetTree fuel db' recipeID
      = Some (Inr \<lparr>ft_TreeID = t_ID tree, ft_RecipeID = recipeID, ft_RootNodeID = Some ?b,
          ft_RootNode = Some ?root\<rparr>)"
    using trees miss_recipe miss_id R B chain
    by (rule GetTree_of_chain) (use fuel len in simp)
  from chain have ne: "?ns \<noteq> []"
    and active: "map n_IsActive ?ns = replicate (length ?ns - 1) False @ [True]"
    by (simp_all add: is_chain_def)
  have flat: "nr_flat ?root = map (nr_Info \<circ> toNodeResponse) ?ns"
    using chainResp_shape [of "hd ?ns" "tl ?ns"] ne by simp
  have depth: "nr_depth ?root = length nodes + 1" and linear: "nr_linear ?root"
    using chainResp_shape [of "hd ?ns" "tl ?ns"] len by simp_all
  have info_id: "ni_ID (nr_Info (toNodeResponse n)) = n_ID n"
    and info_active: "ni_IsActive (nr_Info (toNodeResponse n)) = n_IsActive n" for n
    by (simp_all add: toNodeResponse_def)
  have root_id: "ni_ID (nr_Info ?root) = ?b"
  proof -
    have "nr_Info ?root = nr_Info (toNodeResponse (hd ?ns))"
      by (cases "tl ?ns") simp_all
    then have "ni_ID (nr_Info ?root) = n_ID (?ns ! 0)"
      using ne by (simp add: info_id hd_conv_nth)
    also have "\<dots> = ?b"
      using chain_ids [OF chain, of 0] ne by simp
    finally show ?thesis .
  qed
  have actives: "map ni_IsActive (nr_flat ?root) = replicate (length nodes) False @ [True]"
  proof -
    have "map ni_IsActive (nr_flat ?root) = map n_IsActive ?ns"
      unfolding flat map_map by (rule map_cong [OF refl]) (simp add: info_active)
    with active len show ?thesis by simp
  qed
  have last: "ni_ID (last (nr_flat ?root)) = lastID"
  proof -
    have "last (nr_flat ?root) = (nr_Info \<circ> toNodeResponse) (last ?ns)"
      unfolding flat using ne by (rule last_map)
    then have "ni_ID (last (nr_flat ?root)) = n_ID (?ns ! (length ?ns - 1))"
      using ne by (simp add: info_id last_conv_nth)
    also have "\<dots> = ?b + (length ?ns - 1)"
      using ne by (intro chain_ids [OF chain]) simp
    finally show ?thesis
      using last_id len by simp
  qed
  have size: "length (nr_flat ?root) = length nodes + 1"
    by (simp add: flat len)
  from get root_id linear depth size actives last B
  show "\<exists>root. GetTree fuel db' recipeID
        = Some (Inr \<lparr>ft_TreeID = t_ID tree, ft_RecipeID = recipeID,
                     ft_RootNodeID = t_RootNodeID tree, ft_RootNode = Some root\<rparr>) \<and>
      t_RootNodeID tree = Some (ni_ID (nr_Info root)) \<and>
      nr_linear root \<and> nr_depth root = length nodes + 1 \<and>
      length (nr_flat root) = length nodes + 1 \<and>
      map ni_IsActive (nr_flat root) = replicate (length nodes) False @ [True] \<and>
      ni_ID (last (nr_flat root)) = lastID"
    by (intro exI [of _ ?root]) simp
qed

text \<open>
  A tree of three nodes built on the store without trees: the response is a chain of
  depth 3 whose nodes have ids 1, 2, 3, of which only node 3 is active.
\<close>

theorem GetTree_linear_chain_witness:
  "(case buildChain exForkDB 1 exRoot [exNode, exNode] of
      Inl err \<Rightarrow> False
    | Inr (tree, lastID, db') \<Rightarrow>
        lastID = 3 \<and>
        (\<exists>root. GetTree 3 db' 1
           = Some (Inr \<lparr>ft_TreeID = t_ID tree, ft_RecipeID = 1,
                        ft_RootNodeID = t_RootNodeID tree, ft_RootNode = Some root\<rparr>) \<and>
         t_RootNodeID tree = Some (ni_ID (nr_Info root)) \<and>
         nr_linear root \<and> nr_depth root = 3 \<and>
         map ni_IsActive (nr_flat root) = [False, False, True] \<and>
         ni_ID (last (nr_flat root)) = 3))"
proof -
  have keys: "keys_ok exForkDB" and uniq: "unique_tree_recipe exForkDB"
    by (simp_all add: keys_ok_def ex_defs ex_flow_defs)
  have parent: "n_ParentID exRoot = None"
    by (simp add: ex_defs)
  obtain tree lastID db' where
    build: "buildChain exForkDB 1 exRoot [exNode, exNode] = Inr (tree, lastID, db')"
    by (simp add: buildChain_def CreateRecipeTree_def AddNodeToTree_def create_tree_def
        create_node_def Let_def exForkDB_def exTreeDB_def)
  have three: "lastID = 3"
    using build
    by (simp add: buildChain_def CreateRecipeTree_def AddNodeToTree_def stmt_defs Let_def
        exForkDB_def exTreeDB_def)
  from GetTree_linear_chain [of exForkDB exRoot 1 "[exNode, exNode]" tree lastID db' 3]
    keys uniq parent build
  obtain root where "GetTree 3 db' 1
       = Some (Inr \<lparr>ft_TreeID = t_ID tree, ft_RecipeID = 1,
                    ft_RootNodeID = t_RootNodeID tree, ft_RootNode = Some root\<rparr>)"
    "t_RootNodeID tree = Some (ni_ID (nr_Info root))" "nr_linear root"
    "nr_depth root = length [exNode, exNode] + 1"
    "map ni_IsActive (nr_flat root) = replicate (length [exNode, exNode]) False @ [True]"
    "ni_ID (last (nr_flat root)) = lastID"
    by auto
  then have "\<exists>root. GetTree 3 db' 1
       = Some (Inr \<lparr>ft_TreeID = t_ID tree, ft_RecipeID = 1,
                    ft_RootNodeID = t_RootNodeID tree, ft_RootNode = Some root\<rparr>) \<and>
     t_RootNodeID tree = Some (ni_ID (nr_Info root)) \<and>
     nr_linear root \<and> nr_depth root = 3 \<and>
     map ni_IsActive (nr_flat root) = [False, False, True] \<and>
     ni_ID (last (nr_flat root)) = 3"
    using three by (intro exI [of _ root]) (simp add: numeral_3_eq_3)
  with three show ?thesis
    unfolding build by simp
qed

section \<open>Properties of the legacy migration\<close>

lemma migrateNodes_effect:
  "migrateNodes db T c es prev lastN = (db', lastN') \<Longrightarrow>
   recipe_nodes db' = recipe_nodes db @ entryNodes T c (node_seq db) (clock db) prev es \<and>
   node_seq db' = node_seq db + length es \<and>
   lastN' = (if es = [] then lastN else node_seq db + length es - 1) \<and>
   recipe_trees db' =
     (if prev = None \<and> es \<noteq> []
      then map (\<lambda>t. if t_ID t = T then t\<lparr>t_RootNodeID := Some (node_seq db)\<rparr> else t)
             (recipe_trees db)
      else recipe_trees db) \<and>
   recipes db' = recipes db \<and> recipe_histories db' = recipe_histories db \<and>
   recipe_history_entries db' = recipe_history_entries db \<and>
   tree_seq db' = tree_seq db \<and> unique_tree_recipe db' = unique_tree_recipe db"
proof (induction es arbitrary: db prev lastN)
  case Nil
  then show ?case by simp
next
  case (Cons e es)
  let ?node = "\<lparr>n_ID = node_seq db, n_CreatedAt = clock db, n_TreeID = T, n_ParentID = prev,
      n_Prompt = he_Prompt e, n_Response = he_Response e, n_Summary = he_Summary e,
      n_Type = he_Type e, n_BranchName = ''original'', n_IsEphemeral = False,
      n_CreatedByID = c, n_IsActive = False\<rparr>"
  let ?db1 = "db\<lparr>recipe_nodes := recipe_nodes db @ [?node], node_seq := Suc (node_seq db),
      clock := Suc (clock db), stmt_log := stmt_log db @ [InsertNode (node_seq db)]\<rparr>"
  show ?case
  proof (cases prev)
    case None
    let ?db2 = "update_tree_root ?db1 T (node_seq db)"
    from Cons.prems None have rest:
      "migrateNodes ?db2 T c es (Some (node_seq db)) (node_seq db) = (db', lastN')"
      by (simp add: create_node_def Let_def)
    from Cons.IH [OF rest] None show ?thesis
      by (simp add: update_tree_root_def)
  next
    case (Some p)
    from Cons.prems Some have rest:
      "migrateNodes ?db1 T c es (Some (node_seq db)) (node_seq db) = (db', lastN')"
      by (simp add: create_node_def Let_def)
    from Cons.IH [OF rest] Some show ?thesis
      by simp
  qed
qed

lemma upt_shift: "s # [Suc s ..< Suc s + n] = [s ..< s + Suc n]"
  using upt_conv_Cons [of s "s + Suc n"] by (simp del: upt_Suc)

lemma entryNodes_ids:
  "map n_ID (entryNodes T c s k prev es) = [s ..< s + length es]"
proof (induction es arbitrary: s k prev)
  case Nil
  then show ?case by simp
next
  case (Cons e es)
  have "map n_ID (entryNodes T c s k prev (e # es))
      = s # map n_ID (entryNodes T c (Suc s) (Suc k) (Some s) es)"
    by simp
  also have "\<dots> = s # [Suc s ..< Suc s + length es]"
    by (simp only: Cons.IH)
  also have "\<dots> = [s ..< s + Suc (length es)]"
    by (rule upt_shift)
  finally show ?case by (simp del: upt_Suc)
qed

lemma entryNodes_times:
  "map n_CreatedAt (entryNodes T c s k prev es) = [k ..< k + length es]"
proof (induction es arbitrary: s k prev)
  case Nil
  then show ?case by simp
next
  case (Cons e es)
  have "map n_CreatedAt (entryNodes T c s k prev (e # es))
      = k # map n_CreatedAt (entryNodes T c (Suc s) (Suc k) (Some s) es)"
    by simp
  also have "\<dots> = k # [Suc k ..< Suc k + length es]"
    by (simp only: Cons.IH)
  also have "\<dots> = [k ..< k + Suc (length es)]"
    by (rule upt_shift)
  finally show ?case by (simp del: upt_Suc)
qed

lemma entryNodes_parents:
  "list_all (\<lambda>m. n_ParentID m = (if n_ID m = s then prev else Some (n_ID m - 1)))
     (entryNodes T c s k prev es)"
proof (induction es arbitrary: s k prev)
  case Nil
  then show ?case by simp
next
  case (Cons e es)
  let ?rest = "entryNodes T c (Suc s) (Suc k) (Some s) es"
  have "n_ParentID m = (if n_ID m = s then prev else Some (n_ID m - 1))"
    if m: "m \<in> set ?rest" for m
  proof -
    from m have "n_ID m \<in> set (map n_ID ?rest)" by simp
    then have "n_ID m \<in> set [Suc s ..< Suc s + length es]"
      by (simp only: entryNodes_ids)
    then have ge: "Suc s \<le> n_ID m" by auto
    from Cons.IH [where s = "Suc s" and k = "Suc k" and prev = "Some s"] m
    have "n_ParentID m = (if n_ID m = Suc s then Some s else Some (n_ID m - 1))"
      by (simp add: list_all_iff)
    with ge show ?thesis
      by (cases "n_ID m = Suc s") simp_all
  qed
  then have "list_all (\<lambda>m. n_ParentID m = (if n_ID m = s then prev else Some (n_ID m - 1))) ?rest"
    by (simp add: list_all_iff)
  then show ?case by simp
qed

lemma entryNodes_fields:
  "map n_Prompt (entryNodes T c s k prev es) = map he_Prompt es"
  "map n_Response (entryNodes T c s k prev es) = map he_Response es"
  "map n_Summary (entryNodes T c s k prev es) = map he_Summary es"
  "map n_Type (entryNodes T c s k prev es) = map he_Type es"
  "list_all (\<lambda>n. n_BranchName n = ''original'' \<and> n_TreeID n = T \<and> \<not> n_IsActive n)
     (entryNodes T c s k prev es)"
  by (induction es arbitrary: s k prev) simp_all

lemma inactive_update:
  "\<not> n_IsActive n \<Longrightarrow>
   (if n_ID n = i then n\<lparr>n_IsActive := True\<rparr> else n) = n\<lparr>n_IsActive := (n_ID n = i)\<rparr>"
  by (cases n) simp

lemma last_active_flags:
  assumes ids: "map n_ID ns = [s ..< s + length ns]" and ne: "ns \<noteq> []"
  shows "map n_IsActive (map (\<lambda>n. n\<lparr>n_IsActive := (n_ID n = s + length ns - 1)\<rparr>) ns)
    = replicate (length ns - 1) False @ [True]"
proof (rule nth_equalityI)
  show "length (map n_IsActive (map (\<lambda>n. n\<lparr>n_IsActive := (n_ID n = s + length ns - 1)\<rparr>) ns))
      = length (replicate (length ns - 1) False @ [True])"
    using ne by simp
next
  fix i assume "i < length (map n_IsActive
      (map (\<lambda>n. n\<lparr>n_IsActive := (n_ID n = s + length ns - 1)\<rparr>) ns))"
  then have i: "i < length ns" by simp
  then have "map n_ID ns ! i = s + i"
    unfolding ids by simp
  with i have id: "n_ID (ns ! i) = s + i" by simp
  show "map n_IsActive (map (\<lambda>n. n\<lparr>n_IsActive := (n_ID n = s + length ns - 1)\<rparr>) ns) ! i
      = (replicate (length ns - 1) False @ [True]) ! i"
    using i by (auto simp: id nth_append)
qed

lemma entryNodes_chain:
  assumes ne: "es \<noteq> []"
  shows "is_chain s (map (\<lambda>n. n\<lparr>n_IsActive := (n_ID n = s + length es - 1)\<rparr>)
      (entryNodes T c s k None es))"
proof -
  let ?ns = "entryNodes T c s k None es"
  let ?act = "\<lambda>n. n\<lparr>n_IsActive := (n_ID n = s + length es - 1)\<rparr>"
  have len: "length ?ns = length es"
    using entryNodes_ids [of T c s k None es, THEN arg_cong, of length] by simp
  have ids: "map n_ID ?ns = [s ..< s + length ?ns]"
    by (simp add: entryNodes_ids len)
  have 1: "map n_ID (map ?act ?ns) = [s ..< s + length (map ?act ?ns)]"
    using ids by (simp add: comp_def)
  have 2: "list_all (\<lambda>m. n_ParentID m = (if n_ID m = s then None else Some (n_ID m - 1)))
      (map ?act ?ns)"
    using entryNodes_parents [where s = s and prev = None and T = T and c = c and k = k
        and es = es]
    by (simp add: list_all_iff)
  from ne len have ne': "?ns \<noteq> []" by auto
  have 3: "map n_IsActive (map ?act ?ns) = replicate (length (map ?act ?ns) - 1) False @ [True]"
    using last_active_flags [OF ids ne'] by (simp add: len)
  have 4: "sorted (map n_CreatedAt (map ?act ?ns))"
    by (simp add: comp_def entryNodes_times)
  show ?thesis
    unfolding is_chain_def by (intro conjI 1 2 3 4) (simp add: ne')
qed

lemma find_by_list_ex:
  "list_ex P xs \<Longrightarrow> \<exists>x. find P xs = Some x \<and> P x"
  "\<not> list_ex P xs \<Longrightarrow> find P xs = None"
  by (induction xs) auto

lemma migrate_blocked:
  assumes "blocked db r"
  shows "migrateRecipeToTree db r = Inr db \<or> (\<exists>e. migrateRecipeToTree db r = Inl e)"
proof (cases "list_ex (\<lambda>h. h_ID h = r_HistoryID r) (recipe_histories db)")
  case False
  then have "find (\<lambda>h. h_ID h = r_HistoryID r) (recipe_histories db) = None"
    by (rule find_by_list_ex)
  then show ?thesis
    by (simp add: migrateRecipeToTree_def)
next
  case True
  then obtain h where h: "find (\<lambda>h. h_ID h = r_HistoryID r) (recipe_histories db) = Some h"
    "h_ID h = r_HistoryID r"
    by (blast dest: find_by_list_ex(1))
  show ?thesis
  proof (cases "history_entries db (r_HistoryID r) = []")
    case True
    then show ?thesis
      by (simp add: migrateRecipeToTree_def h)
  next
    case False
    with assms \<open>list_ex (\<lambda>h. h_ID h = r_HistoryID r) (recipe_histories db)\<close>
    have "unique_tree_recipe db \<and> list_ex (\<lambda>t. t_RecipeID t = r_ID r) (recipe_trees db)"
      by (simp add: blocked_def)
    then show ?thesis
      using False by (simp add: migrateRecipeToTree_def h create_tree_def)
  qed
qed

lemma migrate_success:
  assumes keys: "keys_ok db" and nb: "\<not> blocked db r"
  shows "\<exists>db'. migrateRecipeToTree db r = Inr db' \<and>
    recipe_trees db' = recipe_trees db
      @ [\<lparr>t_ID = tree_seq db, t_RecipeID = r_ID r, t_RootNodeID = Some (node_seq db)\<rparr>] \<and>
    recipe_nodes db' = recipe_nodes db
      @ map (\<lambda>n. n\<lparr>n_IsActive :=
                (n_ID n = node_seq db + length (history_entries db (r_HistoryID r)) - 1)\<rparr>)
          (entryNodes (tree_seq db) (r_CreatedByID r) (node_seq db) (Suc (clock db)) None
             (history_entries db (r_HistoryID r))) \<and>
    recipes db' = map (\<lambda>x. if r_ID x = r_ID r \<and> \<not> r_Deleted x
                           then x\<lparr>r_TreeID := Some (tree_seq db)\<rparr> else x) (recipes db) \<and>
    recipe_histories db' = recipe_histories db \<and>
    recipe_history_entries db' = recipe_history_entries db \<and>
    tree_seq db' = Suc (tree_seq db) \<and>
    node_seq db' = node_seq db + length (history_entries db (r_HistoryID r)) \<and>
    unique_tree_recipe db' = unique_tree_recipe db"
proof -
  let ?es = "history_entries db (r_HistoryID r)"
  let ?T = "tree_seq db"
  let ?s = "node_seq db"
  from nb have hist: "list_ex (\<lambda>h. h_ID h = r_HistoryID r) (recipe_histories db)"
    and ne: "?es \<noteq> []"
    and free: "\<not> (unique_tree_recipe db \<and> list_ex (\<lambda>t. t_RecipeID t = r_ID r) (recipe_trees db))"
    by (simp_all add: blocked_def)
  from hist obtain h where h: "find (\<lambda>h. h_ID h = r_HistoryID r) (recipe_histories db) = Some h"
    "h_ID h = r_HistoryID r"
    by (blast dest: find_by_list_ex(1))
  let ?tree0 = "\<lparr>t_ID = ?T, t_RecipeID = r_ID r, t_RootNodeID = None\<rparr>"
  let ?db1 = "db\<lparr>recipe_trees := recipe_trees db @ [?tree0],
      tree_seq := Suc ?T, clock := Suc (clock db), stmt_log := stmt_log db @ [InsertTree ?T]\<rparr>"
  have ct: "create_tree db \<lparr>t_ID = 0, t_RecipeID = r_ID r, t_RootNodeID = None\<rparr>
      = Inr (?tree0, ?db1)"
    using free by (simp add: create_tree_def Let_def)
  obtain db2 lastN where mn:
    "migrateNodes ?db1 ?T (r_CreatedByID r) ?es None 0 = (db2, lastN)"
    by (cases "migrateNodes ?db1 ?T (r_CreatedByID r) ?es None 0") simp
  let ?new = "entryNodes ?T (r_CreatedByID r) ?s (Suc (clock db)) None ?es"
  let ?setroot = "\<lambda>t. if t_ID t = ?T then t\<lparr>t_RootNodeID := Some ?s\<rparr> else t"
  from migrateNodes_effect [OF mn] ne have e:
    "recipe_nodes db2 = recipe_nodes db @ ?new" "node_seq db2 = ?s + length ?es"
    "lastN = ?s + length ?es - 1"
    "recipe_trees db2 = map ?setroot (recipe_trees db @ [?tree0])"
    "recipes db2 = recipes db" "recipe_histories db2 = recipe_histories db"
    "recipe_history_entries db2 = recipe_history_entries db"
    "tree_seq db2 = Suc ?T" "unique_tree_recipe db2 = unique_tree_recipe db"
    by simp_all
  let ?db' = "update_recipe_tree_id (activate_node db2 lastN) (r_ID r) ?T"
  have run: "migrateRecipeToTree db r = Inr ?db'"
    using ne by (simp add: migrateRecipeToTree_def h ct mn Let_def)
  from keys have old_trees: "\<forall>t \<in> set (recipe_trees db). t_ID t \<noteq> ?T"
    and old_ids: "\<forall>n \<in> set (recipe_nodes db). n_ID n < ?s"
    by (auto simp: keys_ok_def)
  have "map ?setroot (recipe_trees db) = recipe_trees db"
    using old_trees by (simp add: map_idI)
  then have trees: "recipe_trees ?db' = recipe_trees db
      @ [\<lparr>t_ID = ?T, t_RecipeID = r_ID r, t_RootNodeID = Some ?s\<rparr>]"
    by (simp add: update_recipe_tree_id_def activate_node_def e(4))
  let ?act = "\<lambda>n. if n_ID n = lastN then n\<lparr>n_IsActive := True\<rparr> else n"
  from ne have "0 < length ?es" by simp
  then have lastN_ge: "?s \<le> lastN"
    unfolding e(3) by arith
  have old: "map ?act (recipe_nodes db) = recipe_nodes db"
    using old_ids lastN_ge by (intro map_idI) auto
  have inactive: "\<forall>n \<in> set ?new. \<not> n_IsActive n"
    using entryNodes_fields(5) [of ?T "r_CreatedByID r" ?s "Suc (clock db)" None ?es]
    by (simp add: list_all_iff)
  have new: "map ?act ?new = map (\<lambda>n. n\<lparr>n_IsActive := (n_ID n = lastN)\<rparr>) ?new"
    using inactive by (intro map_cong [OF refl] inactive_update) simp
  have "recipe_nodes ?db' = map ?act (recipe_nodes db2)"
    by (simp add: update_recipe_tree_id_def activate_node_def)
  also have "\<dots> = map ?act (recipe_nodes db) @ map ?act ?new"
    by (simp only: e(1) map_append)
  also have "\<dots> = recipe_nodes db @ map (\<lambda>n. n\<lparr>n_IsActive := (n_ID n = lastN)\<rparr>) ?new"
    by (simp only: old new)
  finally have nodes: "recipe_nodes ?db' = recipe_nodes db
      @ map (\<lambda>n. n\<lparr>n_IsActive := (n_ID n = ?s + length ?es - 1)\<rparr>) ?new"
    unfolding e(3) .
  have rest: "recipes ?db' = map (\<lambda>x. if r_ID x = r_ID r \<and> \<not> r_Deleted x
        then x\<lparr>r_TreeID := Some ?T\<rparr> else x) (recipes db)"
    "recipe_histories ?db' = recipe_histories db"
    "recipe_history_entries ?db' = recipe_history_entries db"
    "tree_seq ?db' = Suc ?T" "node_seq ?db' = ?s + length ?es"
    "unique_tree_recipe ?db' = unique_tree_recipe db"
    by (simp_all add: update_recipe_tree_id_def activate_node_def e)
  from run trees nodes rest show ?thesis
    by (intro exI [of _ ?db']) simp
qed

lemma migrateAll_step:
  "migrateAll db (r # rs) = migrateAll (migrateStep db r) rs"
  by (simp add: migrateStep_def split: sum.splits)

lemma migrateStep_cases:
  assumes keys: "keys_ok db"
  shows "(blocked db r \<and> migrateStep db r = db) \<or>
         (\<not> blocked db r \<and> migration_of db r (migrateStep db r))"
proof (cases "blocked db r")
  case True
  from migrate_blocked [OF True] have "migrateStep db r = db"
    by (auto simp: migrateStep_def)
  with True show ?thesis by simp
next
  case False
  from migrate_success [OF keys False] obtain db' where
    "migrateRecipeToTree db r = Inr db'" "migration_of db r db'"
    unfolding migration_of_def by blast
  with False show ?thesis
    by (simp add: migrateStep_def)
qed

lemma migration_keys_ok:
  assumes keys: "keys_ok db" and m: "migration_of db r db'"
  shows "keys_ok db'"
proof -
  let ?es = "history_entries db (r_HistoryID r)"
  let ?new = "entryNodes (tree_seq db) (r_CreatedByID r) (node_seq db) (Suc (clock db)) None ?es"
  let ?act = "\<lambda>n. n\<lparr>n_IsActive := (n_ID n = node_seq db + length ?es - 1)\<rparr>"
  from m have trees: "recipe_trees db' = recipe_trees db
      @ [\<lparr>t_ID = tree_seq db, t_RecipeID = r_ID r, t_RootNodeID = Some (node_seq db)\<rparr>]"
    and nodes: "recipe_nodes db' = recipe_nodes db @ map ?act ?new"
    and recs: "map r_ID (recipes db') = map r_ID (recipes db)"
    and seqs: "tree_seq db' = Suc (tree_seq db)" "node_seq db' = node_seq db + length ?es"
    by (simp_all add: migration_of_def comp_def if_distrib cong: if_cong)
  have new_ids: "n_ID n < node_seq db + length ?es" and new_tree: "n_TreeID n = tree_seq db"
    if "n \<in> set (map ?act ?new)" for n
  proof -
    from that obtain n0 where n0: "n0 \<in> set ?new" "n = ?act n0" by auto
    from n0(1) have "n_ID n0 \<in> set (map n_ID ?new)" by simp
    then have "n_ID n0 \<in> set [node_seq db ..< node_seq db + length ?es]"
      by (simp only: entryNodes_ids)
    then show "n_ID n < node_seq db + length ?es"
      by (simp add: n0(2))
    from entryNodes_fields(5) [of "tree_seq db" "r_CreatedByID r" "node_seq db"
        "Suc (clock db)" None ?es] n0(1)
    show "n_TreeID n = tree_seq db"
      by (simp add: list_all_iff n0(2))
  qed
  from keys have k: "distinct (map r_ID (recipes db))" "0 < tree_seq db"
    "\<forall>t \<in> set (recipe_trees db). t_ID t < tree_seq db"
    "\<forall>n \<in> set (recipe_nodes db). n_ID n < node_seq db \<and> n_TreeID n < tree_seq db"
    by (simp_all add: keys_ok_def)
  have 1: "distinct (map r_ID (recipes db'))"
    using k(1) by (simp add: recs)
  have 2: "\<forall>t \<in> set (recipe_trees db'). t_ID t < tree_seq db'"
    using k(3) by (auto simp: trees seqs less_Suc_eq)
  have 3: "\<forall>n \<in> set (recipe_nodes db'). n_ID n < node_seq db' \<and> n_TreeID n < tree_seq db'"
  proof
    fix n assume "n \<in> set (recipe_nodes db')"
    then consider "n \<in> set (recipe_nodes db)" | "n \<in> set (map ?act ?new)"
      unfolding nodes by auto
    then show "n_ID n < node_seq db' \<and> n_TreeID n < tree_seq db'"
    proof cases
      case 1
      with k(4) have "n_ID n < node_seq db" "n_TreeID n < tree_seq db" by simp_all
      then show ?thesis by (simp add: seqs)
    next
      case 2
      from new_ids [OF 2] new_tree [OF 2] show ?thesis by (simp add: seqs)
    qed
  qed
  from 1 2 3 k(2) show ?thesis
    by (simp add: keys_ok_def seqs)
qed

lemma migrateStep_keys_ok:
  "keys_ok db \<Longrightarrow> keys_ok (migrateStep db r)"
  using migrateStep_cases [of db r] migration_keys_ok [of db r "migrateStep db r"] by auto

lemma migrateAll_keys_ok:
  "keys_ok db \<Longrightarrow> keys_ok (migrateAll db rs)"
proof (induction rs arbitrary: db)
  case Nil
  then show ?case by simp
next
  case (Cons r rs)
  from Cons.IH [OF migrateStep_keys_ok [OF Cons.prems]] show ?case
    by (simp only: migrateAll_step)
qed

lemma migration_new_nodes:
  assumes m: "migration_of db r db'"
  shows "tree_nodes db' T = tree_nodes db T
    @ (if T = tree_seq db
       then map (\<lambda>n. n\<lparr>n_IsActive :=
                   (n_ID n = node_seq db + length (history_entries db (r_HistoryID r)) - 1)\<rparr>)
             (entryNodes (tree_seq db) (r_CreatedByID r) (node_seq db) (Suc (clock db)) None
                (history_entries db (r_HistoryID r)))
       else [])"
proof -
  let ?es = "history_entries db (r_HistoryID r)"
  let ?new = "entryNodes (tree_seq db) (r_CreatedByID r) (node_seq db) (Suc (clock db)) None ?es"
  let ?act = "\<lambda>n. n\<lparr>n_IsActive := (n_ID n = node_seq db + length ?es - 1)\<rparr>"
  from m have nodes: "recipe_nodes db' = recipe_nodes db @ map ?act ?new"
    by (simp add: migration_of_def)
  have all: "\<forall>n \<in> set (map ?act ?new). n_TreeID n = tree_seq db"
    using entryNodes_fields(5) [of "tree_seq db" "r_CreatedByID r" "node_seq db"
        "Suc (clock db)" None ?es]
    by (simp add: list_all_iff)
  have "filter (\<lambda>n. n_TreeID n = T) (map ?act ?new)
      = (if T = tree_seq db then map ?act ?new else [])"
  proof (cases "T = tree_seq db")
    case True
    with all have "filter (\<lambda>n. n_TreeID n = T) (map ?act ?new) = map ?act ?new"
      by (intro filter_True) simp
    with True show ?thesis by simp
  next
    case False
    with all have "filter (\<lambda>n. n_TreeID n = T) (map ?act ?new) = []"
      by (simp add: filter_empty_conv)
    with False show ?thesis by simp
  qed
  then show ?thesis
    by (simp add: tree_nodes_def nodes)
qed

lemma migration_established:
  assumes keys: "keys_ok db" and m: "migration_of db r db'"
    and ne: "history_entries db (r_HistoryID r) \<noteq> []"
    and notree: "\<not> list_ex (\<lambda>t. t_RecipeID t = r_ID r) (recipe_trees db)"
  shows "migrated db' (r_ID r) (history_entries db (r_HistoryID r))"
proof -
  let ?es = "history_entries db (r_HistoryID r)"
  let ?s = "node_seq db"
  let ?new = "entryNodes (tree_seq db) (r_CreatedByID r) ?s (Suc (clock db)) None ?es"
  let ?act = "\<lambda>n. n\<lparr>n_IsActive := (n_ID n = ?s + length ?es - 1)\<rparr>"
  let ?ns = "map ?act ?new"
  let ?tree = "\<lparr>t_ID = tree_seq db, t_RecipeID = r_ID r, t_RootNodeID = Some ?s\<rparr>"
  from m have trees: "recipe_trees db' = recipe_trees db @ [?tree]"
    and seq: "tree_seq db' = Suc (tree_seq db)"
    by (simp_all add: migration_of_def)
  from notree have "filter (\<lambda>t. t_RecipeID t = r_ID r) (recipe_trees db) = []"
    by (simp add: filter_empty_conv list_ex_iff)
  then have one: "filter (\<lambda>t. t_RecipeID t = r_ID r) (recipe_trees db') = [?tree]"
    by (simp add: trees)
  from keys have "\<forall>n \<in> set (recipe_nodes db). n_TreeID n \<noteq> tree_seq db"
    by (auto simp: keys_ok_def)
  then have "tree_nodes db (tree_seq db) = []"
    by (simp add: tree_nodes_def filter_empty_conv)
  with migration_new_nodes [OF m, of "tree_seq db"]
  have tn: "tree_nodes db' (t_ID ?tree) = ?ns" by simp
  have chain: "is_chain ?s ?ns"
    using ne by (rule entryNodes_chain)
  then have ne': "?ns \<noteq> []" and ids: "map n_ID ?ns = [?s ..< ?s + length ?ns]"
    by (simp_all add: is_chain_def)
  have "hd (map n_ID ?ns) = ?s"
    unfolding ids using ne' by simp
  then have hd: "n_ID (hd ?ns) = ?s"
    using ne' by (simp add: hd_map)
  have fields: "map n_Prompt ?ns = map he_Prompt ?es" "map n_Response ?ns = map he_Response ?es"
    "map n_Summary ?ns = map he_Summary ?es" "map n_Type ?ns = map he_Type ?es"
    using entryNodes_fields(1-4) [of "tree_seq db" "r_CreatedByID r" ?s "Suc (clock db)" None ?es]
    by (simp_all add: comp_def)
  have branch: "list_all (\<lambda>n. n_BranchName n = ''original'') ?ns"
    using entryNodes_fields(5) [of "tree_seq db" "r_CreatedByID r" ?s "Suc (clock db)" None ?es]
    by (simp add: list_all_iff)
  have "straight_chain_of db' ?tree ?es"
    unfolding straight_chain_of_def tn Let_def
    using ne' hd chain fields branch by simp
  with one show ?thesis
    unfolding migrated_def by (intro exI [of _ ?tree]) (simp add: seq)
qed

lemma migration_frame:
  assumes m: "migration_of db r db'" and other: "r_ID r \<noteq> rid"
    and mig: "migrated db rid es"
  shows "migrated db' rid es"
proof -
  from mig obtain tree where
    tree: "filter (\<lambda>t. t_RecipeID t = rid) (recipe_trees db) = [tree]"
    "t_ID tree < tree_seq db" "straight_chain_of db tree es"
    unfolding migrated_def by blast
  from m have trees: "recipe_trees db' = recipe_trees db
      @ [\<lparr>t_ID = tree_seq db, t_RecipeID = r_ID r, t_RootNodeID = Some (node_seq db)\<rparr>]"
    and seq: "tree_seq db' = Suc (tree_seq db)"
    by (simp_all add: migration_of_def)
  have one: "filter (\<lambda>t. t_RecipeID t = rid) (recipe_trees db') = [tree]"
    using tree(1) other by (simp add: trees)
  have "tree_nodes db' (t_ID tree) = tree_nodes db (t_ID tree)"
    using migration_new_nodes [OF m, of "t_ID tree"] tree(2) by simp
  then have "straight_chain_of db' tree es"
    using tree(3) by (simp add: straight_chain_of_def)
  with one tree(2) show ?thesis
    unfolding migrated_def by (intro exI [of _ tree]) (simp add: seq)
qed

lemma migrateStep_frame:
  assumes keys: "keys_ok db" and other: "r_ID r \<noteq> rid" and mig: "migrated db rid es"
  shows "migrated (migrateStep db r) rid es"
  using migrateStep_cases [OF keys, of r] migration_frame [OF _ other mig] mig by auto

lemma migrateAll_frame:
  "keys_ok db \<Longrightarrow> \<forall>r \<in> set rs. r_ID r \<noteq> rid \<Longrightarrow> migrated db rid es \<Longrightarrow>
   migrated (migrateAll db rs) rid es"
proof (induction rs arbitrary: db)
  case Nil
  then show ?case by simp
next
  case (Cons r rs)
  have "migrated (migrateStep db r) rid es"
    using Cons.prems by (intro migrateStep_frame) simp_all
  with Cons.prems Cons.IH [OF migrateStep_keys_ok [OF Cons.prems(1)]] show ?case
    by (simp only: migrateAll_step) simp
qed

lemma migration_history_entries:
  "migration_of db r db' \<Longrightarrow> history_entries db' h = history_entries db h"
  by (simp add: migration_of_def history_entries_def)

lemma migrateStep_history_entries:
  "keys_ok db \<Longrightarrow> history_entries (migrateStep db r) h = history_entries db h"
  using migrateStep_cases [of db r] migration_history_entries [of db r "migrateStep db r" h]
  by auto

lemma migration_ready:
  assumes m: "migration_of db r db'" and other: "r_ID r \<noteq> r_ID r0"
    and nb: "\<not> blocked db r0"
    and notree: "\<not> list_ex (\<lambda>t. t_RecipeID t = r_ID r0) (recipe_trees db)"
  shows "\<not> blocked db' r0 \<and> \<not> list_ex (\<lambda>t. t_RecipeID t = r_ID r0) (recipe_trees db')"
proof -
  from m have trees: "recipe_trees db' = recipe_trees db
      @ [\<lparr>t_ID = tree_seq db, t_RecipeID = r_ID r, t_RootNodeID = Some (node_seq db)\<rparr>]"
    and hist: "recipe_histories db' = recipe_histories db"
    by (simp_all add: migration_of_def)
  have notree': "\<not> list_ex (\<lambda>t. t_RecipeID t = r_ID r0) (recipe_trees db')"
    using notree other by (simp add: trees)
  with nb show ?thesis
    by (simp add: blocked_def hist migration_history_entries [OF m])
qed

lemma migrateStep_ready:
  assumes keys: "keys_ok db" and other: "r_ID r \<noteq> r_ID r0"
    and nb: "\<not> blocked db r0"
    and notree: "\<not> list_ex (\<lambda>t. t_RecipeID t = r_ID r0) (recipe_trees db)"
  shows "\<not> blocked (migrateStep db r) r0 \<and>
         \<not> list_ex (\<lambda>t. t_RecipeID t = r_ID r0) (recipe_trees (migrateStep db r))"
  using migrateStep_cases [OF keys, of r] migration_ready [OF _ other nb notree] nb notree
  by auto

lemma migrateAll_migrates:
  "keys_ok db \<Longrightarrow> distinct (map r_ID rs) \<Longrightarrow> r0 \<in> set rs \<Longrightarrow> \<not> blocked db r0 \<Longrightarrow>
   \<not> list_ex (\<lambda>t. t_RecipeID t = r_ID r0) (recipe_trees db) \<Longrightarrow>
   migrated (migrateAll db rs) (r_ID r0) (history_entries db (r_HistoryID r0))"
proof (induction rs arbitrary: db)
  case Nil
  then show ?case by simp
next
  case (Cons r rs)
  let ?db1 = "migrateStep db r"
  have keys1: "keys_ok ?db1"
    using Cons.prems(1) by (rule migrateStep_keys_ok)
  from Cons.prems(2) have dist: "distinct (map r_ID rs)" and fresh: "r_ID r \<notin> r_ID ` set rs"
    by simp_all
  show ?case
  proof (cases "r0 = r")
    case True
    from migrateStep_cases [OF Cons.prems(1), of r] Cons.prems(4) True
    have m: "migration_of db r ?db1" by simp
    from Cons.prems(4) True have ne: "history_entries db (r_HistoryID r) \<noteq> []"
      by (simp add: blocked_def)
    from Cons.prems(5) True
    have notree: "\<not> list_ex (\<lambda>t. t_RecipeID t = r_ID r) (recipe_trees db)" by simp
    have "migrated ?db1 (r_ID r) (history_entries db (r_HistoryID r))"
      using Cons.prems(1) m ne notree by (rule migration_established)
    moreover from fresh have "\<forall>x \<in> set rs. r_ID x \<noteq> r_ID r"
      by (metis imageI)
    ultimately have "migrated (migrateAll ?db1 rs) (r_ID r) (history_entries db (r_HistoryID r))"
      using keys1 by (intro migrateAll_frame)
    with True show ?thesis
      by (simp only: migrateAll_step)
  next
    case False
    with Cons.prems(3) have mem: "r0 \<in> set rs" by simp
    with fresh have other: "r_ID r \<noteq> r_ID r0" by (metis imageI)
    from migrateStep_ready [OF Cons.prems(1) other Cons.prems(4) Cons.prems(5)]
    have ready: "\<not> blocked ?db1 r0"
      "\<not> list_ex (\<lambda>t. t_RecipeID t = r_ID r0) (recipe_trees ?db1)"
      by simp_all
    from Cons.IH [OF keys1 dist mem ready]
    have "migrated (migrateAll ?db1 rs) (r_ID r0) (history_entries ?db1 (r_HistoryID r0))" .
    then show ?thesis
      by (simp only: migrateAll_step migrateStep_history_entries [OF Cons.prems(1)])
  qed
qed

lemma migrateAll_blocked:
  "\<forall>r \<in> set rs. blocked db r \<Longrightarrow> migrateAll db rs = db"
proof (induction rs)
  case Nil
  then show ?case by simp
next
  case (Cons r rs)
  then have "blocked db r" by simp
  from migrate_blocked [OF this] have "migrateStep db r = db"
    by (auto simp: migrateStep_def)
  with Cons show ?case
    by (simp only: migrateAll_step) simp
qed

lemma migration_links:
  assumes keys: "keys_ok db" and m: "migration_of db r db'"
  shows "tree_linked db' (r_ID r)"
proof -
  from keys have pos: "0 < tree_seq db" by (simp add: keys_ok_def)
  from m have recs: "recipes db' = map (\<lambda>x. if r_ID x = r_ID r \<and> \<not> r_Deleted x
      then x\<lparr>r_TreeID := Some (tree_seq db)\<rparr> else x) (recipes db)"
    by (simp add: migration_of_def)
  have "list_all (\<lambda>x. r_ID x = r_ID r \<and> \<not> r_Deleted x \<longrightarrow>
          r_TreeID x \<noteq> None \<and> r_TreeID x \<noteq> Some 0)
        (map (\<lambda>x. if r_ID x = r_ID r \<and> \<not> r_Deleted x
           then x\<lparr>r_TreeID := Some (tree_seq db)\<rparr> else x) rows)" for rows
  proof (induction rows)
    case Nil
    then show ?case by simp
  next
    case (Cons x rows)
    then show ?case
      using pos by (cases "r_ID x = r_ID r"; cases "r_Deleted x") simp_all
  qed
  then show ?thesis
    by (simp add: tree_linked_def recs)
qed

lemma migration_keeps_settled:
  assumes keys: "keys_ok db" and m: "migration_of db r db'" and s: "settled db r0"
  shows "settled db' r0"
proof -
  from keys have pos: "0 < tree_seq db" by (simp add: keys_ok_def)
  from m have trees: "recipe_trees db' = recipe_trees db
      @ [\<lparr>t_ID = tree_seq db, t_RecipeID = r_ID r, t_RootNodeID = Some (node_seq db)\<rparr>]"
    and hist: "recipe_histories db' = recipe_histories db"
    and uniq: "unique_tree_recipe db' = unique_tree_recipe db"
    and recs: "recipes db' = map (\<lambda>x. if r_ID x = r_ID r \<and> \<not> r_Deleted x
      then x\<lparr>r_TreeID := Some (tree_seq db)\<rparr> else x) (recipes db)"
    by (simp_all add: migration_of_def)
  have b: "blocked db' r0" if "blocked db r0"
    using that by (auto simp: blocked_def hist uniq trees migration_history_entries [OF m])
  have l: "list_all (\<lambda>x. r_ID x = k \<and> \<not> r_Deleted x \<longrightarrow>
          r_TreeID x \<noteq> None \<and> r_TreeID x \<noteq> Some 0)
        (map (\<lambda>x. if r_ID x = r_ID r \<and> \<not> r_Deleted x
           then x\<lparr>r_TreeID := Some (tree_seq db)\<rparr> else x) rows)"
    if "list_all (\<lambda>x. r_ID x = k \<and> \<not> r_Deleted x \<longrightarrow>
          r_TreeID x \<noteq> None \<and> r_TreeID x \<noteq> Some 0) rows" for rows k
    using that
  proof (induction rows)
    case Nil
    then show ?case by simp
  next
    case (Cons x rows)
    then show ?case
      using pos by (cases "r_ID x = r_ID r"; cases "r_Deleted x") simp_all
  qed
  show ?thesis
  proof (cases "blocked db r0")
    case True
    then show ?thesis by (simp add: settled_def b)
  next
    case False
    with s have "tree_linked db (r_ID r0)" by (simp add: settled_def)
    then have "tree_linked db' (r_ID r0)"
      unfolding tree_linked_def recs by (rule l)
    then show ?thesis by (simp add: settled_def)
  qed
qed

lemma migrateStep_settles:
  "keys_ok db \<Longrightarrow> settled (migrateStep db r) r"
  using migrateStep_cases [of db r] migration_links [of db r "migrateStep db r"]
  by (auto simp: settled_def)

lemma migrateStep_keeps_settled:
  "keys_ok db \<Longrightarrow> settled db r0 \<Longrightarrow> settled (migrateStep db r) r0"
  using migrateStep_cases [of db r] migration_keeps_settled [of db r "migrateStep db r" r0]
  by auto

lemma migrateAll_keeps_settled:
  "keys_ok db \<Longrightarrow> settled db r0 \<Longrightarrow> settled (migrateAll db rs) r0"
proof (induction rs arbitrary: db)
  case Nil
  then show ?case by simp
next
  case (Cons r rs)
  from Cons.IH [OF migrateStep_keys_ok [OF Cons.prems(1)]
      migrateStep_keeps_settled [OF Cons.prems]]
  show ?case by (simp only: migrateAll_step)
qed

lemma migrateAll_settles:
  "keys_ok db \<Longrightarrow> r0 \<in> set rs \<Longrightarrow> settled (migrateAll db rs) r0"
proof (induction rs arbitrary: db)
  case Nil
  then show ?case by simp
next
  case (Cons r rs)
  have keys1: "keys_ok (migrateStep db r)"
    using Cons.prems(1) by (rule migrateStep_keys_ok)
  show ?case
  proof (cases "r0 = r")
    case True
    from migrateAll_keeps_settled [OF keys1 migrateStep_settles [OF Cons.prems(1)]] True
    show ?thesis by (simp only: migrateAll_step)
  next
    case False
    with Cons.prems(2) have "r0 \<in> set rs" by simp
    from Cons.IH [OF keys1 this] show ?thesis by (simp only: migrateAll_step)
  qed
qed

lemma migration_rows:
  assumes keys: "keys_ok db" and m: "migration_of db r db'" and y: "y \<in> set (recipes db')"
  shows "y \<in> set (recipes db) \<or> (r_TreeID y \<noteq> None \<and> r_TreeID y \<noteq> Some 0)"
proof -
  from keys have pos: "0 < tree_seq db" by (simp add: keys_ok_def)
  from m have recs: "recipes db' = map (\<lambda>x. if r_ID x = r_ID r \<and> \<not> r_Deleted x
      then x\<lparr>r_TreeID := Some (tree_seq db)\<rparr> else x) (recipes db)"
    by (simp add: migration_of_def)
  from y obtain x where x: "x \<in> set (recipes db)"
    "y = (if r_ID x = r_ID r \<and> \<not> r_Deleted x then x\<lparr>r_TreeID := Some (tree_seq db)\<rparr> else x)"
    unfolding recs by (simp only: set_map) blast
  show ?thesis
  proof (cases "r_ID x = r_ID r \<and> \<not> r_Deleted x")
    case True
    with x(2) have "r_TreeID y = Some (tree_seq db)" by simp
    with pos show ?thesis by simp
  next
    case False
    with x show ?thesis by simp
  qed
qed

lemma migrateStep_rows:
  "keys_ok db \<Longrightarrow> y \<in> set (recipes (migrateStep db r)) \<Longrightarrow>
   y \<in> set (recipes db) \<or> (r_TreeID y \<noteq> None \<and> r_TreeID y \<noteq> Some 0)"
  using migrateStep_cases [of db r] migration_rows [of db r "migrateStep db r" y]
  by auto

lemma migrateAll_rows:
  "keys_ok db \<Longrightarrow> y \<in> set (recipes (migrateAll db rs)) \<Longrightarrow>
   y \<in> set (recipes db) \<or> (r_TreeID y \<noteq> None \<and> r_TreeID y \<noteq> Some 0)"
proof (induction rs arbitrary: db)
  case Nil
  then show ?case by simp
next
  case (Cons r rs)
  from Cons.prems(2) have "y \<in> set (recipes (migrateAll (migrateStep db r) rs))"
    by (simp only: migrateAll_step)
  from Cons.IH [OF migrateStep_keys_ok [OF Cons.prems(1)] this]
    migrateStep_rows [OF Cons.prems(1), of y r]
  show ?case by blast
qed

lemma migrateAll_second_run:
  assumes keys: "keys_ok db"
  shows "migrateAll (migrateAll db (recipesToMigrate db))
           (recipesToMigrate (migrateAll db (recipesToMigrate db)))
         = migrateAll db (recipesToMigrate db)"
proof (rule migrateAll_blocked, rule ballI)
  let ?db' = "migrateAll db (recipesToMigrate db)"
  fix y assume "y \<in> set (recipesToMigrate ?db')"
  then have y: "y \<in> set (recipes ?db')" "\<not> r_Deleted y"
    "r_HistoryID y \<noteq> 0" "r_TreeID y = None \<or> r_TreeID y = Some 0"
    by (simp_all add: recipesToMigrate_def)
  from migrateAll_rows [OF keys y(1)] y(4) have "y \<in> set (recipes db)" by auto
  with y(2-4) have "y \<in> set (recipesToMigrate db)"
    by (simp add: recipesToMigrate_def)
  from migrateAll_settles [OF keys this]
  have "blocked ?db' y \<or> tree_linked ?db' (r_ID y)"
    by (simp add: settled_def)
  moreover have "\<not> tree_linked ?db' (r_ID y)"
    using y(1,2,4) unfolding tree_linked_def list_all_iff by blast
  ultimately show "blocked ?db' y" by blast
qed

lemma MigrateRecipeHistoryToTree_total:
  "MigrateRecipeHistoryToTree db = Inr (migrateAll db (recipesToMigrate db))"
  by (simp add: MigrateRecipeHistoryToTree_def Let_def)

lemma legacy_recipe_ready:
  assumes "has_legacy_history db recipe" and "recipe \<in> set (recipes db)"
  shows "recipe \<in> set (recipesToMigrate db)" "\<not> blocked db recipe"
    "\<not> list_ex (\<lambda>t. t_RecipeID t = r_ID recipe) (recipe_trees db)"
  using assms by (simp_all add: has_legacy_history_def recipesToMigrate_def blocked_def)

text \<open>
  C8. On a store whose keys were issued by its sequences, the legacy-history migration
  returns without error, and running it again on the store it produced changes nothing:
  no further tree, node or other row. And every recipe of the store that has a history
  with at least one entry and no tree has, after the run, exactly one tree, whose nodes
  are a single straight chain: the recorded root is the first node, every other node's
  parent is the node before it, only the last node is active, the nodes carry the
  prompts, snapshots, summaries and types of the history's entries in the entries'
  order, and every branch label is "original". This holds whatever happens to the other
  recipes of the store: a recipe whose migration fails is skipped and the loop goes on.
\<close>

theorem legacy_migration_idempotent:
  assumes "keys_ok db"
  shows "\<exists>db'. MigrateRecipeHistoryToTree db = Inr db' \<and>
           MigrateRecipeHistoryToTree db' = Inr db' \<and>
           (\<forall>recipe \<in> set (recipes db). has_legacy_history db recipe \<longrightarrow>
              migrated db' (r_ID recipe) (history_entries db (r_HistoryID recipe)))"
proof (intro exI conjI ballI impI)
  let ?db' = "migrateAll db (recipesToMigrate db)"
  show "MigrateRecipeHistoryToTree db = Inr ?db'"
    by (rule MigrateRecipeHistoryToTree_total)
  show "MigrateRecipeHistoryToTree ?db' = Inr ?db'"
    by (simp only: MigrateRecipeHistoryToTree_total migrateAll_second_run [OF assms])
  fix recipe
  assume mem: "recipe \<in> set (recipes db)" and legacy: "has_legacy_history db recipe"
  from assms have "distinct (map r_ID (recipes db))"
    by (simp add: keys_ok_def)
  then have "distinct (map r_ID (recipesToMigrate db))"
    unfolding recipesToMigrate_def by (rule distinct_map_filter)
  with assms show "migrated ?db' (r_ID recipe) (history_entries db (r_HistoryID recipe))"
    using legacy_recipe_ready [OF legacy mem] by (intro migrateAll_migrates)
qed

theorem legacy_migration_idempotent_witness:
  "keys_ok exLegacyDB \<and>
   exRecipe\<lparr>r_ID := 2, r_TreeID := None\<rparr> \<in> set (recipes exLegacyDB) \<and>
   has_legacy_history exLegacyDB (exRecipe\<lparr>r_ID := 2, r_TreeID := None\<rparr>) \<and>
   migrateRecipeToTree exLegacyDB (exRecipe\<lparr>r_HistoryID := 5, r_TreeID := None\<rparr>)
     = Inl ErrRecordNotFound \<and>
   (\<exists>db'. MigrateRecipeHistoryToTree exLegacyDB = Inr db' \<and>
      MigrateRecipeHistoryToTree db' = Inr db' \<and>
      migrated db' 2 [exManual, exChat])"
proof -
  let ?r = "exRecipe\<lparr>r_ID := 2, r_TreeID := None\<rparr>"
  have keys: "keys_ok exLegacyDB"
    by (simp add: keys_ok_def exLegacyDB_def exRecipe_def)
  have mem: "?r \<in> set (recipes exLegacyDB)"
    by (simp add: exLegacyDB_def)
  have es: "history_entries exLegacyDB (r_HistoryID ?r) = [exManual, exChat]"
    by (simp add: history_entries_def exLegacyDB_def exRecipe_def exManual_def exChat_def)
  have legacy: "has_legacy_history exLegacyDB ?r"
    unfolding has_legacy_history_def es
    by (simp add: exLegacyDB_def exRecipe_def)
  have fails: "migrateRecipeToTree exLegacyDB (exRecipe\<lparr>r_HistoryID := 5, r_TreeID := None\<rparr>)
      = Inl ErrRecordNotFound"
    by (simp add: migrateRecipeToTree_def exLegacyDB_def exRecipe_def)
  from legacy_migration_idempotent [OF keys] obtain db' where
    run: "MigrateRecipeHistoryToTree exLegacyDB = Inr db'"
      "MigrateRecipeHistoryToTree db' = Inr db'"
    and all: "\<forall>recipe \<in> set (recipes exLegacyDB). has_legacy_history exLegacyDB recipe \<longrightarrow>
      migrated db' (r_ID recipe) (history_entries exLegacyDB (r_HistoryID recipe))"
    by blast
  from all mem
  have "has_legacy_history exLegacyDB ?r \<longrightarrow>
      migrated db' (r_ID ?r) (history_entries exLegacyDB (r_HistoryID ?r))"
    by (rule bspec)
  with legacy
  have "migrated db' (r_ID ?r) (history_entries exLegacyDB (r_HistoryID ?r))"
    by (rule rev_mp)
  then have "migrated db' 2 [exManual, exChat]"
    unfolding es by simp
  with keys mem legacy fails run show ?thesis
    by (intro conjI exI [of _ db'])
qed

end
